theory Spec2Isabelle
  imports Main "HOL-Library.Sublist"
begin

section \<open>The ticket lock \<open>ObjectLock\<close>\<close>

text \<open>
  The class \<open>ObjectLock\<close> has three private fields: the flag \<open>_lock\<close>, the array
  \<open>_queue\<close> of ticket ids and the counter \<open>_currentId\<close>.  A ticket id is a JavaScript
  number whose value is a whole number; it is modelled as an integer, and the one
  arithmetic operation on it, \<open>_currentId++\<close>, is given with the rounding of a double.
\<close>

record ObjectLock =
  lock_flag :: bool
  queue :: "int list"
  currentId :: int

definition new_ObjectLock :: ObjectLock where
  "new_ObjectLock = \<lparr>lock_flag = False, queue = [], currentId = 0\<rparr>"

text \<open>\<open>get isLocked()\<close>\<close>

definition isLocked :: "ObjectLock \<Rightarrow> bool" where
  "isLocked s = lock_flag s"

text \<open>The only exception the class throws: \<open>new Error('unlock without lock')\<close>.\<close>

datatype lock_error = UnlockWithoutLock

subsection \<open>\<open>unlock\<close>\<close>

text \<open>\<open>Array.prototype.indexOf\<close>: the first index holding the value, \<open>-1\<close> (here \<open>None\<close>)
  when there is none.\<close>

fun indexOf :: "'a list \<Rightarrow> 'a \<Rightarrow> nat option" where
  "indexOf [] x = None"
| "indexOf (y # ys) x = (if y = x then Some 0 else map_option Suc (indexOf ys x))"

text \<open>\<open>xs.splice(index, 1)\<close>: removes the one element at \<open>index\<close>.\<close>

definition splice1 :: "nat \<Rightarrow> 'a list \<Rightarrow> 'a list" where
  "splice1 index xs = take index xs @ drop (Suc index) xs"

text \<open>
  \<open>unlock\<close> returns the state together with its outcome, so that what a throwing call
  leaves behind is part of the model.
\<close>

definition unlock :: "ObjectLock \<Rightarrow> int \<Rightarrow> (lock_error + unit) \<times> ObjectLock" where
  "unlock s tid =
     (if lock_flag s then
        (case indexOf (queue s) tid of
           None \<Rightarrow> (Inl UnlockWithoutLock, s)
         | Some index \<Rightarrow> (Inr (), s\<lparr>lock_flag := False, queue := splice1 index (queue s)\<rparr>))
      else (Inl UnlockWithoutLock, s))"

subsection \<open>\<open>lock\<close>\<close>

text \<open>
  \<open>this._currentId++\<close> on a double.  The counter starts at \<open>0\<close> and nothing else changes
  it.  Up to \<open>2^53\<close> the successor is exact; \<open>2^53 + 1\<close> is not a double and rounds back
  to \<open>2^53\<close>, so the counter stays there (larger values never arise).
\<close>

definition tickets_limit :: nat where
  "tickets_limit = 2 ^ 53"

definition js_increment :: "int \<Rightarrow> int" where
  "js_increment n = (if n < int tickets_limit then n + 1 else n)"

text \<open>
  An \<open>async\<close> function runs without interruption up to an \<open>await\<close>.  A call of
  \<open>lock()\<close> is therefore made of atomic pieces: the piece from the call to the first
  \<open>await sleep(10)\<close> (or to the \<open>return\<close>, when the lock is free), and one piece for each
  time the call wakes up and tests the loop condition again.

  \<open>must_wait\<close> is the loop condition \<open>this._queue[0] !== id || this._lock\<close>; element
  \<open>0\<close> of an empty array is \<open>undefined\<close>, which differs from every id.
\<close>

definition head_is :: "int list \<Rightarrow> int \<Rightarrow> bool" where
  "head_is q tid = (case q of [] \<Rightarrow> False | h # _ \<Rightarrow> h = tid)"

definition must_wait :: "ObjectLock \<Rightarrow> int \<Rightarrow> bool" where
  "must_wait s tid = (\<not> head_is (queue s) tid \<or> lock_flag s)"

text \<open>
  From the call to the first suspension: the ticket, whether the call went to sleep in
  the loop (\<open>True\<close>) or returned the ticket at once (\<open>False\<close>), and the state.
\<close>

definition lock_begin :: "ObjectLock \<Rightarrow> int \<times> bool \<times> ObjectLock" where
  "lock_begin s =
     (let tid = currentId s;
          s1 = s\<lparr>currentId := js_increment tid, queue := queue s @ [tid]\<rparr>
      in if lock_flag s1 then (tid, True, s1)
         else (tid, False, s1\<lparr>lock_flag := True\<rparr>))"

text \<open>
  A sleeping call with ticket \<open>tid\<close> wakes up: it sleeps again (\<open>True\<close>) or sets the
  flag and returns \<open>tid\<close> (\<open>False\<close>).
\<close>

definition lock_wake :: "ObjectLock \<Rightarrow> int \<Rightarrow> bool \<times> ObjectLock" where
  "lock_wake s tid =
     (if must_wait s tid then (True, s) else (False, s\<lparr>lock_flag := True\<rparr>))"




subsection \<open>\<open>runLocked\<close>\<close>


subsection \<open>Several callers of one lock\<close>

text \<open>
  The tasks that use one lock interleave at the atomic pieces above.  The system state
  is the lock together with the tickets of the calls of \<open>lock()\<close> that are asleep in the
  loop.  An event is one piece: a new call of \<open>lock()\<close>, the wake-up of a sleeping call,
  or a call of \<open>unlock\<close>.
\<close>

record system =
  the_lock :: ObjectLock
  sleepers :: "int list"

definition new_system :: system where
  "new_system = \<lparr>the_lock = new_ObjectLock, sleepers = []\<rparr>"

datatype event = Lock | Wake int | Unlock int

datatype observation =
    Returned int
  | Suspended int
  | Released
  | Threw lock_error
  | NoSuchSleeper

definition step :: "system \<Rightarrow> event \<Rightarrow> observation \<times> system" where
  "step \<sigma> e =
     (case e of
        Lock \<Rightarrow>
          (case lock_begin (the_lock \<sigma>) of
             (tid, True, s') \<Rightarrow>
               (Suspended tid, \<sigma>\<lparr>the_lock := s', sleepers := sleepers \<sigma> @ [tid]\<rparr>)
           | (tid, False, s') \<Rightarrow> (Returned tid, \<sigma>\<lparr>the_lock := s'\<rparr>))
      | Wake tid \<Rightarrow>
          (if tid \<in> set (sleepers \<sigma>) then
             (case lock_wake (the_lock \<sigma>) tid of
                (True, s') \<Rightarrow> (Suspended tid, \<sigma>\<lparr>the_lock := s'\<rparr>)
              | (False, s') \<Rightarrow>
                  (Returned tid, \<sigma>\<lparr>the_lock := s', sleepers := removeAll tid (sleepers \<sigma>)\<rparr>))
           else (NoSuchSleeper, \<sigma>))
      | Unlock tid \<Rightarrow>
          (case unlock (the_lock \<sigma>) tid of
             (Inl err, s') \<Rightarrow> (Threw err, \<sigma>\<lparr>the_lock := s'\<rparr>)
           | (Inr u, s') \<Rightarrow> (Released, \<sigma>\<lparr>the_lock := s'\<rparr>)))"

text \<open>Running a sequence of events: what each event was answered, and the last state.\<close>

fun run :: "system \<Rightarrow> event list \<Rightarrow> (event \<times> observation) list \<times> system" where
  "run \<sigma> [] = ([], \<sigma>)"
| "run \<sigma> (e # es) =
     (case step \<sigma> e of (ob, \<sigma>') \<Rightarrow>
        (case run \<sigma>' es of (tr, \<sigma>'') \<Rightarrow> ((e, ob) # tr, \<sigma>'')))"



text \<open>
  The tickets that hold the lock: those whose call of \<open>lock()\<close> has returned and that
  have not been released, that is, the queued tickets that are not asleep.
\<close>

definition holders :: "system \<Rightarrow> int list" where
  "holders \<sigma> = filter (\<lambda>tid. tid \<notin> set (sleepers \<sigma>)) (queue (the_lock \<sigma>))"


section \<open>The browser tool \<open>PuppeteerBrowserTool\<close>\<close>

subsection \<open>Strings\<close>

text \<open>
  A JavaScript string is a sequence of UTF-16 code units.  The model's strings are lists
  of \<open>char\<close>, read as the code units below 256 (Latin-1); \<open>trim\<close> and \<open>toLowerCase\<close>
  are given for that range.
\<close>

definition newline :: char where
  "newline = CHR 0x0A"

text \<open>What \<open>String.prototype.trim\<close> strips: white space and line terminators (tab, line
  feed, vertical tab, form feed, carriage return, space, no-break space).\<close>

definition js_whitespace :: "char \<Rightarrow> bool" where
  "js_whitespace c = (c \<in> set [CHR 0x09, CHR 0x0A, CHR 0x0B, CHR 0x0C, CHR 0x0D, CHR 0x20, CHR 0xA0])"

definition trim :: "string \<Rightarrow> string" where
  "trim s = rev (dropWhile js_whitespace (rev (dropWhile js_whitespace s)))"

definition upper_case :: string where
  "upper_case = ''ABCDEFGHIJKLMNOPQRSTUVWXYZ'' @
     [CHR 0xC0, CHR 0xC1, CHR 0xC2, CHR 0xC3, CHR 0xC4, CHR 0xC5, CHR 0xC6, CHR 0xC7,
      CHR 0xC8, CHR 0xC9, CHR 0xCA, CHR 0xCB, CHR 0xCC, CHR 0xCD, CHR 0xCE, CHR 0xCF,
      CHR 0xD0, CHR 0xD1, CHR 0xD2, CHR 0xD3, CHR 0xD4, CHR 0xD5, CHR 0xD6,
      CHR 0xD8, CHR 0xD9, CHR 0xDA, CHR 0xDB, CHR 0xDC, CHR 0xDD, CHR 0xDE]"

definition lower_case :: string where
  "lower_case = ''abcdefghijklmnopqrstuvwxyz'' @
     [CHR 0xE0, CHR 0xE1, CHR 0xE2, CHR 0xE3, CHR 0xE4, CHR 0xE5, CHR 0xE6, CHR 0xE7,
      CHR 0xE8, CHR 0xE9, CHR 0xEA, CHR 0xEB, CHR 0xEC, CHR 0xED, CHR 0xEE, CHR 0xEF,
      CHR 0xF0, CHR 0xF1, CHR 0xF2, CHR 0xF3, CHR 0xF4, CHR 0xF5, CHR 0xF6,
      CHR 0xF8, CHR 0xF9, CHR 0xFA, CHR 0xFB, CHR 0xFC, CHR 0xFD, CHR 0xFE]"

definition toLowerCase :: "string \<Rightarrow> string" where
  "toLowerCase s =
     map (\<lambda>c. case map_of (zip upper_case lower_case) c of None \<Rightarrow> c | Some l \<Rightarrow> l) s"

text \<open>\<open>s.includes(pattern)\<close>: \<open>pattern\<close> occurs in \<open>s\<close> as a substring.\<close>

fun str_includes :: "string \<Rightarrow> string \<Rightarrow> bool" where
  "str_includes [] pattern = (pattern = [])"
| "str_includes (c # cs) pattern = (prefix pattern (c # cs) \<or> str_includes cs pattern)"

text \<open>\<open>parts.join(separator)\<close>\<close>

fun join :: "string list \<Rightarrow> string \<Rightarrow> string" where
  "join [] separator = []"
| "join [part] separator = part"
| "join (part # parts) separator = part @ separator @ join parts separator"

text \<open>
  \<open>s.replace(/\n{3,}/g, '\n\n')\<close>: scanning from the left, a maximal run of three or more
  line feeds is replaced by two; a shorter run is copied.
\<close>

function collapse :: "string \<Rightarrow> string" where
  "collapse [] = []"
| "collapse (c # cs) =
     (if c = newline then
        (let run = takeWhile (\<lambda>x. x = newline) (c # cs);
             rest = dropWhile (\<lambda>x. x = newline) cs
         in (if 3 \<le> length run then [newline, newline] else run) @ collapse rest)
      else c # collapse cs)"
  by pat_completeness auto
termination
  by (relation "measure length") (auto simp: less_Suc_eq_le length_dropWhile_le)

subsection \<open>The document\<close>

text \<open>
  A DOM node as \<open>processNode\<close> sees it: a text node with its data, an element with
  its \<open>tagName\<close>, its attributes (by name, as \<open>getAttribute\<close> finds them; \<open>className\<close> is
  the attribute \<open>class\<close>) and its \<open>childNodes\<close>, or a node of another type (a comment).
\<close>

datatype node =
    TextNode string
  | Element string "(string \<times> string) list" "node list"
  | OtherNode

text \<open>\<open>textContent\<close>: the data of the text nodes below the node, in document order.\<close>

fun textContent :: "node \<Rightarrow> string" where
  "textContent (TextNode d) = d"
| "textContent (Element tag attrs kids) = concat (map textContent kids)"
| "textContent OtherNode = []"

text \<open>\<open>['h1', 'h2', 'h3', 'h4', 'h5', 'h6'].indexOf(tagName) + 1\<close>\<close>

definition heading_level :: "string \<Rightarrow> nat" where
  "heading_level tagName =
     (case indexOf [''h1'', ''h2'', ''h3'', ''h4'', ''h5'', ''h6''] tagName of
        None \<Rightarrow> 0
      | Some i \<Rightarrow> i + 1)"

text \<open>
  \<open>processNode(node, depth)\<close> appends to \<open>structuredText\<close>; the function below returns
  what one call appends.  \<open>resolve href\<close> stands for
  \<open>new URL(href, baseUrl).toString()\<close> and is \<open>None\<close> when the constructor throws.
\<close>

fun processNode :: "(string \<Rightarrow> string option) \<Rightarrow> node \<Rightarrow> nat \<Rightarrow> string" where
  "processNode resolve (TextNode d) depth =
     (let trimmedText = trim d in if trimmedText \<noteq> [] then '' '' @ trimmedText else [])"
| "processNode resolve OtherNode depth = []"
| "processNode resolve (Element tag attrs kids) depth =
     (let tagName = toLowerCase tag;
          text = trim (textContent (Element tag attrs kids))
      in
      if tagName = ''a'' then
        (case map_of attrs ''href'' of
           None \<Rightarrow> '' '' @ text
         | Some href \<Rightarrow>
             if href = [] then '' '' @ text
             else
               (case resolve href of
                  Some fullUrl \<Rightarrow> '' ['' @ text @ '']('' @ fullUrl @ '')''
                | None \<Rightarrow> '' ['' @ text @ '']('' @ href @ '')''))
      else if tagName \<in> set [''p'', ''h1'', ''h2'', ''h3'', ''h4'', ''h5'', ''h6''] then
        replicate (if 0 < depth then 1 else 2) newline @
        replicate (heading_level tagName) (CHR ''#'') @ '' '' @
        concat (map (\<lambda>child. processNode resolve child (depth + 1)) kids) @
        [newline]
      else if tagName \<in> set [''ul'', ''ol''] then
        [newline] @
        concat (map (\<lambda>child. processNode resolve child (depth + 1)) kids) @
        [newline]
      else if tagName = ''li'' then
        [newline] @ concat (replicate depth ''  '') @ ''- '' @
        concat (map (\<lambda>child. processNode resolve child (depth + 1)) kids)
      else if tagName = ''br'' then [newline]
      else if tagName \<in> set [''strong'', ''b''] then '' **'' @ text @ ''** ''
      else if tagName \<in> set [''em'', ''i''] then '' *'' @ text @ ''* ''
      else if tagName = ''code'' then '' `'' @ text @ ''` ''
      else if tagName = ''pre'' then
        [newline] @ ''```'' @ [newline] @ text @ [newline] @ ''```'' @ [newline]
      else if tagName = ''blockquote'' then
        [newline] @ ''> '' @
        concat (map (\<lambda>c. if c = newline then [newline] @ ''> '' else [c]) text) @
        [newline]
      else if tagName = ''table'' then
        [newline] @
        concat (map (\<lambda>child. processNode resolve child (depth + 1)) kids) @
        [newline]
      else if tagName = ''tr'' then
        ''|'' @
        concat (map (\<lambda>child. processNode resolve child (depth + 1)) kids) @
        [newline]
      else if tagName \<in> set [''th'', ''td''] then '' '' @ text @ '' |''
      else if tagName = ''span'' then
        (let className = (case map_of attrs ''class'' of None \<Rightarrow> [] | Some c \<Rightarrow> c)
         in if str_includes className ''highlight'' then '' **'' @ text @ ''** ''
            else if str_includes className ''italic'' then '' *'' @ text @ ''* ''
            else '' '' @ text @ '' '')
      else if tagName \<noteq> ''script'' \<and> tagName \<noteq> ''style'' then
        concat (map (\<lambda>child. processNode resolve child depth) kids)
      else [])"

text \<open>
  The function that \<open>getPageText\<close> evaluates in the page:
  \<open>processNode(document.body)\<close>, then
  \<open>structuredText.trim().replace(/\n{3,}/g, '\n\n')\<close>.
\<close>

definition extract_text :: "(string \<Rightarrow> string option) \<Rightarrow> node \<Rightarrow> string" where
  "extract_text resolve body = collapse (trim (processNode resolve body 0))"

subsection \<open>Exceptions\<close>

text \<open>
  What a \<open>catch\<close> clause can receive: an \<open>Error\<close> object with its name and message,
  \<open>null\<close>, \<open>undefined\<close>, or some other value, given by what \<open>${v.message}\<close> and
  \<open>${v}\<close> render.
\<close>

datatype thrown =
    JsError string string
  | ThrownNull
  | ThrownUndefined
  | ThrownValue string string

text \<open>
  \<open>error.message\<close> inside a template literal.  Reading a property of \<open>null\<close> or
  \<open>undefined\<close> throws a \<open>TypeError\<close> (the message is the one of V8).
\<close>

fun message_of :: "thrown \<Rightarrow> thrown + string" where
  "message_of (JsError name message) = Inr message"
| "message_of ThrownNull =
     Inl (JsError ''TypeError'' ''Cannot read properties of null (reading 'message')'')"
| "message_of ThrownUndefined =
     Inl (JsError ''TypeError'' ''Cannot read properties of undefined (reading 'message')'')"
| "message_of (ThrownValue message rendered) = Inr message"

text \<open>\<open>${error}\<close>; for an \<open>Error\<close> object this is \<open>Error.prototype.toString\<close>.\<close>

fun to_text :: "thrown \<Rightarrow> string" where
  "to_text (JsError name message) =
     (if name = [] then message else if message = [] then name else name @ '': '' @ message)"
| "to_text ThrownNull = ''null''"
| "to_text ThrownUndefined = ''undefined''"
| "to_text (ThrownValue message rendered) = rendered"

text \<open>\<open>try { body } catch (error) { handler }\<close>, for a body that may have changed the state
  before it threw.\<close>

definition try_catch ::
  "(thrown + 'a) \<times> 's \<Rightarrow> (thrown \<Rightarrow> thrown + 'a) \<Rightarrow> (thrown + 'a) \<times> 's" where
  "try_catch body handler =
     (case body of (Inl error, s) \<Rightarrow> (handler error, s) | (Inr v, s) \<Rightarrow> (Inr v, s))"

text \<open>The usual \<open>catch\<close> block of a handler: \<open>return `<context>${error.message}`\<close>.\<close>

definition caught :: "string \<Rightarrow> thrown \<Rightarrow> thrown + string" where
  "caught context error =
     (case message_of error of Inl type_error \<Rightarrow> Inl type_error | Inr message \<Rightarrow> Inr (context @ message))"

subsection \<open>The collaborators\<close>

text \<open>A hyperlink as \<open>getStructuredUrls\<close> reads it: \<open>a.href\<close>, \<open>a.textContent\<close>,
  whether \<open>a.closest('nav')\<close> finds an element, and \<open>a.matches('header a, footer a')\<close>.\<close>

record anchor =
  href :: string
  anchor_text :: string
  closest_nav :: bool
  matches_header_footer :: bool

text \<open>The parts of a \<open>URL\<close> object that are read: \<open>hostname\<close>, \<open>pathname\<close>,
  \<open>search\<close>.\<close>

record url =
  hostname :: string
  pathname :: string
  url_search :: string

text \<open>
  Everything outside the tool that one call consults, with the result each consultation
  has during that call (\<open>Inl\<close>: it throws or rejects).  A page handle is a number.
  \<^item> \<open>now\<close>: \<open>Date.now()\<close>;
  \<^item> \<open>puppeteer\<close>: \<open>ctx.puppeteer\<close> is there; \<open>newPage\<close>:
    \<open>puppeteer.browser.newPage()\<close>;
  \<^item> \<open>goto\<close>, \<open>goBack\<close>, \<open>content\<close>: the methods of the page;
  \<^item> \<open>document_body\<close>: \<open>document.body\<close> as the extraction script finds it (\<open>Inl\<close>:
    the call of \<open>page.evaluate\<close> is rejected); \<open>resolve_href\<close>:
    \<open>new URL(href, baseUrl).toString()\<close>, \<open>None\<close> when the constructor throws;
  \<^item> \<open>similar text query\<close>: the page contents of the chunks that the text splitter,
    the vector store and \<open>similaritySearch(query, 20)\<close> select;
  \<^item> \<open>invoke\<close>: \<open>(await this.model.invoke(input)).content\<close>;
  \<^item> \<open>querySelector\<close>: the \<open>textContent\<close> of \<open>document.querySelector(sel)\<close>, \<open>None\<close>
    when no element matches;
  \<^item> \<open>links\<close>: \<open>window.location.hostname\<close> and \<open>document.querySelectorAll('a')\<close>;
    \<open>new_URL\<close>: \<open>new URL(href)\<close>, \<open>None\<close> when the constructor throws.
\<close>

record world =
  now :: nat
  puppeteer :: bool
  newPage :: "thrown + nat"
  goto :: "nat \<Rightarrow> string \<Rightarrow> thrown + unit"
  goBack :: "nat \<Rightarrow> thrown + unit"
  content :: "nat \<Rightarrow> thrown + string"
  document_body :: "nat \<Rightarrow> thrown + node"
  resolve_href :: "nat \<Rightarrow> string \<Rightarrow> string option"
  similar :: "string \<Rightarrow> string \<Rightarrow> thrown + string list"
  invoke :: "string \<Rightarrow> thrown + string"
  querySelector :: "nat \<Rightarrow> string \<Rightarrow> thrown + string option"
  links :: "nat \<Rightarrow> thrown + string \<times> anchor list"
  new_URL :: "string \<Rightarrow> url option"

subsection \<open>The tool and its handlers\<close>

text \<open>The fields of the tool that change: \<open>page\<close> (\<open>null\<close> is \<open>None\<close>) and
  \<open>lastActionTime\<close>.\<close>

record tool =
  page :: "nat option"
  lastActionTime :: nat

text \<open>A handler returns its string or throws, and leaves a state in both cases.\<close>

type_synonym handled = "(thrown + string) \<times> tool"

definition initBrowser :: "world \<Rightarrow> tool \<Rightarrow> (thrown + unit) \<times> tool" where
  "initBrowser w t =
     (if page t = None then
        (if puppeteer w then
           (case newPage w of
              Inl error \<Rightarrow> (Inl error, t)
            | Inr p \<Rightarrow> (Inr (), t\<lparr>page := Some p\<rparr>))
         else (Inl (JsError ''Error'' ''Puppeteer service is not available''), t))
      else (Inr (), t))"

text \<open>The \<open>try\<close> block of \<open>openPage\<close>.  \<open>this.page!.goto\<close> on \<open>null\<close> would be a
  \<open>TypeError\<close>.\<close>

definition openPage_try :: "world \<Rightarrow> tool \<Rightarrow> string \<Rightarrow> handled" where
  "openPage_try w t url =
     (case initBrowser w t of
        (Inl error, t1) \<Rightarrow> (Inl error, t1)
      | (Inr u, t1) \<Rightarrow>
          (case page t1 of
             None \<Rightarrow>
               (Inl (JsError ''TypeError'' ''Cannot read properties of null (reading 'goto')''), t1)
           | Some p \<Rightarrow>
               (case goto w p url of
                  Inl error \<Rightarrow> (Inl error, t1)
                | Inr u \<Rightarrow> (Inr ''Page opened successfully'', t1))))"

definition openPage :: "world \<Rightarrow> tool \<Rightarrow> string \<Rightarrow> handled" where
  "openPage w t url = try_catch (openPage_try w t url) (caught ''Error opening page: '')"

definition getPageText_try :: "world \<Rightarrow> tool \<Rightarrow> string \<Rightarrow> handled" where
  "getPageText_try w t searchText =
     (case page t of
        None \<Rightarrow> (Inr ''No page is open, please use open action first'', t)
      | Some p \<Rightarrow>
          (case document_body w p of
             Inl error \<Rightarrow> (Inl error, t)
           | Inr root \<Rightarrow>
               (let text = extract_text (resolve_href w p) root
                in if searchText \<noteq> [] then
                     (case similar w text searchText of
                        Inl error \<Rightarrow> (Inl error, t)
                      | Inr results \<Rightarrow> (Inr (join results [newline, newline]), t))
                   else (Inr text, t))))"

definition getPageText :: "world \<Rightarrow> tool \<Rightarrow> string \<Rightarrow> handled" where
  "getPageText w t searchText =
     try_catch (getPageText_try w t searchText) (caught ''Error getting page text: '')"

definition summary_prompt :: "string \<Rightarrow> string \<Rightarrow> string" where
  "summary_prompt text searchText =
     ''Text: '' @ text @
     ''\<newline>\<newline>'' @
     ''Please provide a comprehensive and objective summary of the above text'' @
     (if searchText \<noteq> [] then '', with a focus on '' @ [CHR 0x22] @ searchText @ [CHR 0x22] else []) @
     ''. Your summary should be well-structured and thorough, including:\<newline>\<newline>'' @
     ''1. An overview of the main topic or themes (1 paragraph)\<newline>'' @
     ''2. A detailed breakdown of key points, arguments, or findings (3-4 paragraphs)\<newline>'' @
     ''3. Important supporting evidence, data, or examples (1-2 paragraphs)\<newline>'' @
     ''4. Any contrasting viewpoints or limitations mentioned in the text (1 paragraph, if applicable)\<newline>'' @
     ''5. Implications or conclusions drawn from the main points (1 paragraph)\<newline>\<newline>'' @
     ''Guidelines for the summary:\<newline>'' @
     '' - Organize the content into clear, logically flowing paragraphs\<newline>'' @
     '' - Maintain an objective tone throughout, avoiding sensationalism or bias\<newline>'' @
     '' - Use transitional phrases to connect ideas and ensure smooth flow between paragraphs\<newline>'' @
     '' - Include relevant quotes or statistics from the original text to support key points\<newline>'' @
     '' - If applicable, incorporate up to 5 important links from the text, contextually integrated into your summary\<newline>'' @
     '' - Ensure all information is accurate and derived from the provided text\<newline>'' @
     '' - IMPORTANT: Use the exact same language as the input text for your summary. Do not translate or change the language.\<newline>\<newline>'' @
     ''Please aim for a balanced, informative summary that a reader could use to gain a comprehensive understanding of the original content.\<newline>\<newline>'' @
     ''CRITICAL: Your summary MUST be in the same language as the original text. Do not translate or change the language under any circumstances.''"

definition summarizeText :: "world \<Rightarrow> string \<Rightarrow> string \<Rightarrow> thrown + string" where
  "summarizeText w text searchText =
     (case invoke w (summary_prompt text searchText) of
        Inl error \<Rightarrow> caught ''Error summarizing text: '' error
      | Inr summary_content \<Rightarrow> Inr summary_content)"

text \<open>
  \<open>summarizePage\<close> awaits \<open>getPageText\<close> inside its \<open>try\<close> block and returns the promise
  of \<open>summarizeText\<close> without awaiting it, so only the former is covered by its \<open>catch\<close>.
\<close>

definition summarizePage :: "world \<Rightarrow> tool \<Rightarrow> string \<Rightarrow> handled" where
  "summarizePage w t searchText =
     (case getPageText w t searchText of
        (Inl error, t1) \<Rightarrow> (caught ''Error summarizing page: '' error, t1)
      | (Inr text, t1) \<Rightarrow> (summarizeText w text searchText, t1))"

definition selectDiv_try :: "world \<Rightarrow> tool \<Rightarrow> string \<Rightarrow> handled" where
  "selectDiv_try w t selector =
     (case page t of
        None \<Rightarrow> (Inr ''No page is open'', t)
      | Some p \<Rightarrow>
          (case querySelector w p selector of
             Inl error \<Rightarrow> (Inl error, t)
           | Inr element \<Rightarrow>
               (let content = (case element of None \<Rightarrow> ''Element not found'' | Some tc \<Rightarrow> tc)
                in (Inr (if content \<noteq> [] then content else ''No content found''), t))))"

definition selectDiv :: "world \<Rightarrow> tool \<Rightarrow> string \<Rightarrow> handled" where
  "selectDiv w t selector =
     try_catch (selectDiv_try w t selector) (caught ''Error selecting div: '')"

definition goToPreviousPage_try :: "world \<Rightarrow> tool \<Rightarrow> handled" where
  "goToPreviousPage_try w t =
     (case page t of
        None \<Rightarrow> (Inr ''No page is open'', t)
      | Some p \<Rightarrow>
          (case goBack w p of
             Inl error \<Rightarrow> (Inl error, t)
           | Inr u \<Rightarrow> (Inr ''Navigated to previous page'', t)))"

text \<open>The \<open>catch\<close> block of \<open>goToPreviousPage\<close> logs \<open>error.message\<close> and returns
  \<open>${error}\<close>.\<close>

definition goToPreviousPage_catch :: "thrown \<Rightarrow> thrown + string" where
  "goToPreviousPage_catch error =
     (case message_of error of
        Inl type_error \<Rightarrow> Inl type_error
      | Inr message \<Rightarrow> Inr (''Error navigating to previous page: '' @ to_text error))"

definition goToPreviousPage :: "world \<Rightarrow> tool \<Rightarrow> handled" where
  "goToPreviousPage w t = try_catch (goToPreviousPage_try w t) goToPreviousPage_catch"

definition getHtml_try :: "world \<Rightarrow> tool \<Rightarrow> handled" where
  "getHtml_try w t =
     (case page t of
        None \<Rightarrow> (Inr ''No page is open'', t)
      | Some p \<Rightarrow>
          (case content w p of
             Inl error \<Rightarrow> (Inl error, t)
           | Inr html \<Rightarrow> (Inr html, t)))"

definition getHtml :: "world \<Rightarrow> tool \<Rightarrow> handled" where
  "getHtml w t = try_catch (getHtml_try w t) (caught ''Error getting HTML: '')"

subsection \<open>\<open>getStructuredUrls\<close>\<close>

record urlStructure =
  search :: "string list"
  navigation :: "string list"
  external :: "string list"
  other :: "string list"

text \<open>
  The \<open>forEach\<close> over the anchors.  \<open>new URL(href)\<close> is not guarded: when it throws
  the loop is left and the evaluation fails (the message is the one of V8).
\<close>

fun classify ::
  "(string \<Rightarrow> url option) \<Rightarrow> string \<Rightarrow> anchor list \<Rightarrow> urlStructure \<Rightarrow> thrown + urlStructure" where
  "classify parse currentHost [] urlStructure = Inr urlStructure"
| "classify parse currentHost (a # rest) urlStructure =
     (if href a = [] then classify parse currentHost rest urlStructure
      else
        (case parse (href a) of
           None \<Rightarrow> Inl (JsError ''TypeError'' ''Failed to construct 'URL': Invalid URL'')
         | Some url \<Rightarrow>
             (let linkText = trim (anchor_text a);
                  entry = linkText @ '': '' @ href a
              in
              if hostname url = currentHost then
                (if str_includes (pathname url) ''search'' \<or> str_includes (url_search url) ''q='' then
                   classify parse currentHost rest
                     (urlStructure\<lparr>search := search urlStructure @ [entry]\<rparr>)
                 else if closest_nav a \<or> matches_header_footer a then
                   classify parse currentHost rest
                     (urlStructure\<lparr>navigation := navigation urlStructure @ [entry]\<rparr>)
                 else
                   classify parse currentHost rest
                     (urlStructure\<lparr>other := other urlStructure @ [entry]\<rparr>))
              else
                classify parse currentHost rest
                  (urlStructure\<lparr>external := external urlStructure @ [entry]\<rparr>))))"

text \<open>\<open>JSON.stringify(urlStructure, null, 2)\<close>: strings are quoted with the escapes of
  JSON, arrays and the object are laid out with an indentation of two spaces.\<close>

definition hex_digit :: "nat \<Rightarrow> char" where
  "hex_digit n = ''0123456789abcdef'' ! n"

definition json_escape :: "char \<Rightarrow> string" where
  "json_escape c =
     (if c = CHR 0x22 then [CHR 0x5C, CHR 0x22]
      else if c = CHR 0x5C then [CHR 0x5C, CHR 0x5C]
      else if c = CHR 0x08 then [CHR 0x5C, CHR ''b'']
      else if c = CHR 0x09 then [CHR 0x5C, CHR ''t'']
      else if c = CHR 0x0A then [CHR 0x5C, CHR ''n'']
      else if c = CHR 0x0C then [CHR 0x5C, CHR ''f'']
      else if c = CHR 0x0D then [CHR 0x5C, CHR ''r'']
      else if (of_char c :: nat) < 32 then
        [CHR 0x5C, CHR ''u'', CHR ''0'', CHR ''0'',
         hex_digit ((of_char c :: nat) div 16), hex_digit ((of_char c :: nat) mod 16)]
      else [c])"

definition json_string :: "string \<Rightarrow> string" where
  "json_string s = [CHR 0x22] @ concat (map json_escape s) @ [CHR 0x22]"

definition json_array :: "string list \<Rightarrow> string" where
  "json_array xs =
     (if xs = [] then ''[]''
      else ''['' @ [newline] @
           join (map (\<lambda>x. ''    '' @ json_string x) xs) ('','' @ [newline]) @
           [newline] @ ''  ]'')"

definition stringify :: "urlStructure \<Rightarrow> string" where
  "stringify urlStructure =
     ''{'' @ [newline] @
     ''  '' @ json_string ''search'' @ '': '' @ json_array (search urlStructure) @ '','' @ [newline] @
     ''  '' @ json_string ''navigation'' @ '': '' @ json_array (navigation urlStructure) @ '','' @ [newline] @
     ''  '' @ json_string ''external'' @ '': '' @ json_array (external urlStructure) @ '','' @ [newline] @
     ''  '' @ json_string ''other'' @ '': '' @ json_array (other urlStructure) @ [newline] @
     ''}''"

definition getStructuredUrls_try :: "world \<Rightarrow> tool \<Rightarrow> handled" where
  "getStructuredUrls_try w t =
     (case page t of
        None \<Rightarrow> (Inr ''No page is open'', t)
      | Some p \<Rightarrow>
          (case links w p of
             Inl error \<Rightarrow> (Inl error, t)
           | Inr (currentHost, anchors) \<Rightarrow>
               (case classify (new_URL w) currentHost anchors
                       \<lparr>search = [], navigation = [], external = [], other = []\<rparr> of
                  Inl error \<Rightarrow> (Inl error, t)
                | Inr urlStructure \<Rightarrow> (Inr (stringify urlStructure), t))))"

definition getStructuredUrls :: "world \<Rightarrow> tool \<Rightarrow> handled" where
  "getStructuredUrls w t =
     try_catch (getStructuredUrls_try w t) (caught ''Error getting structured URLs: '')"

text \<open>
  The classification in the words of the specification, for a link whose \<open>href\<close> is not
  empty and parses to \<open>u\<close>: another host is external; on the same host, a path with
  \<open>search\<close> or a query with \<open>q=\<close> is a search link; otherwise a link inside \<open>nav\<close> or
  matching \<open>header a, footer a\<close> is a navigation link; the rest is other.  \<open>entries\<close> are
  the strings \<open>linkText: url\<close> of one bucket, in document order.
\<close>

datatype bucket = SearchBucket | NavigationBucket | ExternalBucket | OtherBucket

definition bucket_of :: "string \<Rightarrow> url \<Rightarrow> anchor \<Rightarrow> bucket" where
  "bucket_of currentHost u a =
     (if hostname u = currentHost then
        (if str_includes (pathname u) ''search'' \<or> str_includes (url_search u) ''q='' then SearchBucket
         else if closest_nav a \<or> matches_header_footer a then NavigationBucket
         else OtherBucket)
      else ExternalBucket)"

definition entries :: "string \<Rightarrow> (string \<Rightarrow> url) \<Rightarrow> bucket \<Rightarrow> anchor list \<Rightarrow> string list" where
  "entries currentHost u b anchors =
     map (\<lambda>a. trim (anchor_text a) @ '': '' @ href a)
       (filter (\<lambda>a. href a \<noteq> [] \<and> bucket_of currentHost (u (href a)) a = b) anchors)"

subsection \<open>The entry point \<open>_call\<close>\<close>

datatype verb = Open | Summarize | Text | Select | Previous | GetHtml | GetStructuredUrls

text \<open>The own properties of \<open>this.actions\<close>, in the order of the object literal (the
  order of \<open>Object.keys\<close>).\<close>

definition own_actions :: "(string \<times> verb) list" where
  "own_actions =
     [(''open'', Open), (''summarize'', Summarize), (''text'', Text), (''select'', Select),
      (''previous'', Previous), (''get-html'', GetHtml),
      (''get-structured-urls'', GetStructuredUrls)]"

text \<open>
  \<open>this.actions[action]\<close>.  \<open>actions\<close> is a plain object, so a key that is not its own is
  looked up in \<open>Object.prototype\<close>.  The key is always a result of \<open>toLowerCase\<close>; of the
  properties of \<open>Object.prototype\<close> two are written in lower case: \<open>constructor\<close> (the
  function \<open>Object\<close>) and \<open>__proto__\<close> (the prototype object itself).  Both are truthy.
\<close>

datatype property = Handler verb | ObjectConstructor | ObjectPrototype

definition actions :: "string \<Rightarrow> property option" where
  "actions key =
     (case map_of own_actions key of
        Some v \<Rightarrow> Some (Handler v)
      | None \<Rightarrow>
          if key = ''constructor'' then Some ObjectConstructor
          else if key = ''__proto__'' then Some ObjectPrototype
          else None)"

fun handler :: "world \<Rightarrow> tool \<Rightarrow> verb \<Rightarrow> string \<Rightarrow> handled" where
  "handler w t Open params = openPage w t params"
| "handler w t Summarize params = summarizePage w t params"
| "handler w t Text params = getPageText w t params"
| "handler w t Select params = selectDiv w t params"
| "handler w t Previous params = goToPreviousPage w t"
| "handler w t GetHtml params = getHtml w t"
| "handler w t GetStructuredUrls params = getStructuredUrls w t"

text \<open>Lines 75 to 88 of \<open>_call\<close>: the action and the parameters.\<close>

definition parse_input :: "string \<Rightarrow> string \<times> string" where
  "parse_input input =
     (case indexOf input (CHR '' '') of
        Some firstSpaceIndex \<Rightarrow>
          (toLowerCase (trim (take firstSpaceIndex input)),
           trim (drop (firstSpaceIndex + 1) input))
      | None \<Rightarrow>
          (let action = toLowerCase (trim input)
           in if actions action = None then (''open'', trim input) else (action, [])))"

text \<open>
  What \<open>_call\<close> resolves to: a string, or a \<open>String\<close> object (\<open>Object(params)\<close>, when the
  action is \<open>constructor\<close>).
\<close>

datatype returned_value = Str string | StringObject string

text \<open>\<open>return await this.actions[action](params)\<close>, when the property is the handler of
  verb \<open>v\<close>; \<open>lastActionTime\<close> has been set before.\<close>

definition handled_by ::
  "world \<Rightarrow> tool \<Rightarrow> verb \<Rightarrow> string \<Rightarrow> (thrown + returned_value) \<times> tool" where
  "handled_by w t v params =
     (case handler w (t\<lparr>lastActionTime := now w\<rparr>) v params of
        (Inl error, t2) \<Rightarrow> (Inl error, t2)
      | (Inr s, t2) \<Rightarrow> (Inr (Str s), t2))"

text \<open>The \<open>try\<close> block of \<open>_call\<close>.  Calling \<open>Object.prototype\<close> is a \<open>TypeError\<close>
  (the message is the one of V8).\<close>

definition call_try :: "world \<Rightarrow> tool \<Rightarrow> string \<Rightarrow> (thrown + returned_value) \<times> tool" where
  "call_try w t input =
     (case parse_input input of
        (action, params) \<Rightarrow>
          (case actions action of
             Some (Handler v) \<Rightarrow> handled_by w t v params
           | Some ObjectConstructor \<Rightarrow>
               (Inr (StringObject params), t\<lparr>lastActionTime := now w\<rparr>)
           | Some ObjectPrototype \<Rightarrow>
               (Inl (JsError ''TypeError'' ''this.actions[action] is not a function''),
                t\<lparr>lastActionTime := now w\<rparr>)
           | None \<Rightarrow>
               (Inr (Str (''Unknown action: '' @ action @ ''. Available actions: '' @
                          join (map fst own_actions) '', '')),
                t\<lparr>lastActionTime := now w\<rparr>)))"

text \<open>The \<open>catch\<close> block of \<open>_call\<close>.\<close>

fun call_catch :: "thrown \<Rightarrow> returned_value" where
  "call_catch (JsError name message) = Str (''Error: '' @ message)"
| "call_catch error = Str ''An unknown error occurred''"

definition call :: "world \<Rightarrow> tool \<Rightarrow> string \<Rightarrow> returned_value \<times> tool" where
  "call w t input =
     (case call_try w t input of
        (Inl error, t') \<Rightarrow> (call_catch error, t')
      | (Inr result, t') \<Rightarrow> (result, t'))"

subsection \<open>The \<open>try\<close> and \<open>catch\<close> blocks by verb\<close>

text \<open>
  Every handler is a \<open>try\<close> block with a \<open>catch\<close> block.  For \<open>summarize\<close> the \<open>try\<close>
  block of \<open>summarizePage\<close> ends with the awaited call of \<open>getPageText\<close>.
\<close>

fun handler_try :: "world \<Rightarrow> tool \<Rightarrow> verb \<Rightarrow> string \<Rightarrow> handled" where
  "handler_try w t Open params = openPage_try w t params"
| "handler_try w t Summarize params = getPageText w t params"
| "handler_try w t Text params = getPageText_try w t params"
| "handler_try w t Select params = selectDiv_try w t params"
| "handler_try w t Previous params = goToPreviousPage_try w t"
| "handler_try w t GetHtml params = getHtml_try w t"
| "handler_try w t GetStructuredUrls params = getStructuredUrls_try w t"

text \<open>The text that the \<open>catch\<close> block of a handler puts before the message.\<close>

fun error_context :: "verb \<Rightarrow> string" where
  "error_context Open = ''Error opening page: ''"
| "error_context Summarize = ''Error summarizing page: ''"
| "error_context Text = ''Error getting page text: ''"
| "error_context Select = ''Error selecting div: ''"
| "error_context Previous = ''Error navigating to previous page: ''"
| "error_context GetHtml = ''Error getting HTML: ''"
| "error_context GetStructuredUrls = ''Error getting structured URLs: ''"

subsection \<open>A sample environment\<close>

text \<open>
  A world for concrete runs: no browser service; a navigation that times out; a language
  model that answers with the first 51 characters of its prompt; a page at
  \<open>example.com\<close> with four links, the last with the attribute \<open>href="http://"\<close>, which
  does not parse as a URL.
\<close>

definition sample_links :: "anchor list" where
  "sample_links =
     [\<lparr>href = ''https://example.com/find?q=term'', anchor_text = '' Find '',
        closest_nav = False, matches_header_footer = False\<rparr>,
      \<lparr>href = ''https://example.com/about'', anchor_text = ''About'',
        closest_nav = True, matches_header_footer = False\<rparr>,
      \<lparr>href = ''https://other.org/'', anchor_text = ''Other'',
        closest_nav = True, matches_header_footer = False\<rparr>,
      \<lparr>href = ''http://'', anchor_text = ''Soon'',
        closest_nav = False, matches_header_footer = False\<rparr>]"

definition sample_URL :: "string \<Rightarrow> url option" where
  "sample_URL =
     map_of
       [(''https://example.com/find?q=term'',
           \<lparr>hostname = ''example.com'', pathname = ''/find'', url_search = ''?q=term''\<rparr>),
        (''https://example.com/about'',
           \<lparr>hostname = ''example.com'', pathname = ''/about'', url_search = []\<rparr>),
        (''https://other.org/'',
           \<lparr>hostname = ''other.org'', pathname = ''/'', url_search = []\<rparr>)]"

definition sample_world :: world where
  "sample_world =
     \<lparr>now = 1000,
      puppeteer = False,
      newPage = Inr 1,
      goto = (\<lambda>p address. Inl (JsError ''TimeoutError'' (''Navigation timeout: '' @ address))),
      goBack = (\<lambda>p. Inr ()),
      content = (\<lambda>p. Inr ''<html><head></head><body></body></html>''),
      document_body = (\<lambda>p. Inr (Element ''BODY'' [] [])),
      resolve_href = (\<lambda>p h. None),
      similar = (\<lambda>text query. Inr []),
      invoke = (\<lambda>input. Inr (take 51 input)),
      querySelector = (\<lambda>p sel. Inr None),
      links = (\<lambda>p. Inr (''example.com'', sample_links)),
      new_URL = sample_URL\<rparr>"

section \<open>Properties of the lock\<close>

lemma indexOf_None: "indexOf xs x = None \<longleftrightarrow> x \<notin> set xs"
  by (induction xs) auto

lemma indexOf_Some_split:
  "indexOf xs x = Some i \<Longrightarrow>
     \<exists>ys zs. xs = ys @ x # zs \<and> x \<notin> set ys \<and> length ys = i \<and> splice1 i xs = ys @ zs"
proof (induction xs arbitrary: i)
  case Nil
  then show ?case by simp
next
  case (Cons y xs)
  show ?case
  proof (cases "y = x")
    case True
    with Cons.prems have "i = 0" by simp
    with True show ?thesis by (auto simp: splice1_def)
  next
    case False
    with Cons.prems obtain j where j: "indexOf xs x = Some j" "i = Suc j" by auto
    from Cons.IH [OF j(1)] obtain ys zs where
      "xs = ys @ x # zs" "x \<notin> set ys" "length ys = j" "splice1 j xs = ys @ zs" by blast
    with False j(2) have "y # xs = (y # ys) @ x # zs \<and> x \<notin> set (y # ys) \<and>
        length (y # ys) = i \<and> splice1 i (y # xs) = (y # ys) @ zs"
      by (simp add: splice1_def)
    then show ?thesis by blast
  qed
qed

lemma splice1_indexOf_remove1: "indexOf xs x = Some i \<Longrightarrow> splice1 i xs = remove1 x xs"
  by (induction xs arbitrary: i) (auto simp: splice1_def)

text \<open>
  C2.  \<open>unlock(ticketId)\<close> throws exactly when the lock is not held or the ticket is not
  in the queue; a throwing call leaves the lock untouched; a successful call clears the
  flag, removes the one entry \<open>ticketId\<close> (the queue splits around it) and leaves every
  other entry, and the counter, as they were.
\<close>

theorem unlock_spec:
  "(fst (unlock s tid) = Inl UnlockWithoutLock \<longleftrightarrow> \<not> lock_flag s \<or> tid \<notin> set (queue s)) \<and>
   (fst (unlock s tid) = Inl UnlockWithoutLock \<longrightarrow> snd (unlock s tid) = s) \<and>
   (fst (unlock s tid) = Inr () \<longrightarrow>
      \<not> lock_flag (snd (unlock s tid)) \<and>
      currentId (snd (unlock s tid)) = currentId s \<and>
      queue (snd (unlock s tid)) = remove1 tid (queue s) \<and>
      (\<exists>before after. queue s = before @ tid # after \<and> tid \<notin> set before \<and>
         queue (snd (unlock s tid)) = before @ after))"
proof (cases "lock_flag s")
  case False
  then show ?thesis by (simp add: unlock_def)
next
  case True
  show ?thesis
  proof (cases "indexOf (queue s) tid")
    case None
    then have "tid \<notin> set (queue s)" by (simp add: indexOf_None)
    with True None show ?thesis by (simp add: unlock_def)
  next
    case (Some i)
    have res: "unlock s tid = (Inr (), s\<lparr>lock_flag := False, queue := splice1 i (queue s)\<rparr>)"
      using True Some by (simp add: unlock_def)
    have mem: "tid \<in> set (queue s)"
      using Some indexOf_None [of "queue s" tid] by simp
    from indexOf_Some_split [OF Some] obtain ys zs where
      split: "queue s = ys @ tid # zs" "tid \<notin> set ys" "splice1 i (queue s) = ys @ zs"
      by blast
    have ex: "\<exists>before after. queue s = before @ tid # after \<and> tid \<notin> set before \<and>
        splice1 i (queue s) = before @ after"
      using split by blast
    show ?thesis
      using True mem ex splice1_indexOf_remove1 [OF Some] by (simp add: res)
  qed
qed

theorem unlock_spec_witness:
  "fst (unlock \<lparr>lock_flag = True, queue = [3, 4, 5], currentId = 6\<rparr> 4) = Inr () \<and>
   snd (unlock \<lparr>lock_flag = True, queue = [3, 4, 5], currentId = 6\<rparr> 4)
     = \<lparr>lock_flag = False, queue = [3, 5], currentId = 6\<rparr> \<and>
   fst (unlock \<lparr>lock_flag = True, queue = [3, 4, 5], currentId = 6\<rparr> 7) = Inl UnlockWithoutLock \<and>
   snd (unlock \<lparr>lock_flag = True, queue = [3, 4, 5], currentId = 6\<rparr> 7)
     = \<lparr>lock_flag = True, queue = [3, 4, 5], currentId = 6\<rparr> \<and>
   fst (unlock \<lparr>lock_flag = False, queue = [3, 4, 5], currentId = 6\<rparr> 4) = Inl UnlockWithoutLock \<and>
   snd (unlock \<lparr>lock_flag = False, queue = [3, 4, 5], currentId = 6\<rparr> 4)
     = \<lparr>lock_flag = False, queue = [3, 4, 5], currentId = 6\<rparr>"
  using unlock_spec [of "\<lparr>lock_flag = True, queue = [3, 4, 5], currentId = 6\<rparr>" 4]
    unlock_spec [of "\<lparr>lock_flag = True, queue = [3, 4, 5], currentId = 6\<rparr>" 7]
    unlock_spec [of "\<lparr>lock_flag = False, queue = [3, 4, 5], currentId = 6\<rparr>" 4]
  by (simp add: unlock_def splice1_def)


subsection \<open>Tickets\<close>





lemma js_increment_below [simp]: "n < 2 ^ 53 \<Longrightarrow> js_increment n = n + 1"
  by (simp add: js_increment_def tickets_limit_def)

lemma js_increment_limit [simp]: "js_increment (int tickets_limit) = int tickets_limit"
  by (simp add: js_increment_def)












subsection \<open>First come, first served\<close>

text \<open>
  C1.  The queue does not make the lock fair.  A call of \<open>lock()\<close> that finds the flag
  clear takes the lock without looking at the queue: after ticket \<open>0\<close> is released
  while ticket \<open>1\<close> sleeps, a new call gets ticket \<open>2\<close> and returns at once, so the
  holder is \<open>2\<close> while the older ticket \<open>1\<close> is still queued.  And \<open>unlock\<close> accepts
  the ticket of a sleeping call: releasing \<open>1\<close> while \<open>0\<close> holds the lock clears the
  flag, and the next call returns at once, so \<open>0\<close> and \<open>2\<close> hold the lock together.
\<close>

theorem lock_not_first_come_first_served:
  "run new_system [Lock, Lock, Unlock 0, Lock] =
     ([(Lock, Returned 0), (Lock, Suspended 1), (Unlock 0, Released), (Lock, Returned 2)],
      \<lparr>the_lock = \<lparr>lock_flag = True, queue = [1, 2], currentId = 3\<rparr>, sleepers = [1]\<rparr>) \<and>
   holders (snd (run new_system [Lock, Lock, Unlock 0, Lock])) = [2] \<and>
   run new_system [Lock, Lock, Unlock 1, Lock] =
     ([(Lock, Returned 0), (Lock, Suspended 1), (Unlock 1, Released), (Lock, Returned 2)],
      \<lparr>the_lock = \<lparr>lock_flag = True, queue = [0, 2], currentId = 3\<rparr>, sleepers = [1]\<rparr>) \<and>
   holders (snd (run new_system [Lock, Lock, Unlock 1, Lock])) = [0, 2]"
  by (simp add: new_system_def new_ObjectLock_def step_def lock_begin_def unlock_def
      splice1_def holders_def Let_def)

subsection \<open>\<open>runLocked\<close>\<close>








section \<open>Properties of the browser tool\<close>

subsection \<open>Post-processing of the extracted text\<close>

lemma dropWhile_last: "dropWhile P xs \<noteq> [] \<Longrightarrow> last (dropWhile P xs) = last xs"
  by (induction xs) (auto split: if_splits)

lemma trim_ends:
  assumes "trim s \<noteq> []"
  shows "\<not> js_whitespace (hd (trim s)) \<and> \<not> js_whitespace (last (trim s))"
proof -
  define u where "u = dropWhile js_whitespace s"
  define v where "v = dropWhile js_whitespace (rev u)"
  have t: "trim s = rev v" by (simp add: trim_def u_def v_def)
  with assms have v: "v \<noteq> []" by simp
  then have u: "u \<noteq> []" by (auto simp: v_def)
  from v have "\<not> js_whitespace (hd v)" unfolding v_def by (rule hd_dropWhile)
  moreover from v have "last v = last (rev u)" unfolding v_def by (rule dropWhile_last)
  with u have "last v = hd u" by (simp add: last_rev)
  moreover from u have "\<not> js_whitespace (hd u)" unfolding u_def by (rule hd_dropWhile)
  ultimately show ?thesis using v by (simp add: t hd_rev last_rev)
qed

lemma collapse_Nil_iff: "collapse t = [] \<longleftrightarrow> t = []"
  by (cases t) (auto simp: Let_def)

lemma collapse_hd: "t \<noteq> [] \<Longrightarrow> hd t \<noteq> newline \<Longrightarrow> hd (collapse t) = hd t"
  by (cases t) auto

lemma collapse_last: "t \<noteq> [] \<Longrightarrow> last t \<noteq> newline \<Longrightarrow> last (collapse t) = last t"
proof (induction t rule: collapse.induct)
  case 1
  then show ?case by simp
next
  case (2 c cs)
  show ?case
  proof (cases "c = newline")
    case False
    with 2 show ?thesis by (cases cs) (auto simp: collapse_Nil_iff)
  next
    case True
    define rest where "rest = dropWhile (\<lambda>x. x = newline) cs"
    from True "2.prems" have cs: "cs \<noteq> []" "last cs \<noteq> newline" by (auto split: if_splits)
    then have "last cs \<in> set cs" "\<not> (\<lambda>x. x = newline) (last cs)" by auto
    then have rest: "rest \<noteq> []" unfolding rest_def
      by (auto simp: dropWhile_eq_Nil_conv)
    then have lr: "last rest = last cs" unfolding rest_def by (rule dropWhile_last)
    from "2.IH"(1) [OF True refl refl] rest lr cs
    have "last (collapse rest) = last rest" by (simp add: rest_def)
    with rest lr cs True show ?thesis
      by (simp add: Let_def rest_def [symmetric] collapse_Nil_iff)
  qed
qed

lemma takeWhile_replicate_eq:
  "takeWhile (\<lambda>x. x = a) xs = replicate (length (takeWhile (\<lambda>x. x = a) xs)) a"
  by (rule replicate_length_same [symmetric]) (auto dest: set_takeWhileD)

lemma no_run_short: "k \<le> 2 \<Longrightarrow> \<not> sublist [newline, newline, newline] (replicate k newline)"
  by (auto dest: sublist_length_le)

lemma no_run_prepend:
  assumes "k \<le> 2" "d \<noteq> newline" "\<not> sublist [newline, newline, newline] (d # r)"
  shows "\<not> sublist [newline, newline, newline] (replicate k newline @ d # r)"
proof -
  from assms(1) consider "k = 0" | "k = 1" | "k = 2" by linarith
  then show ?thesis
    using assms(2,3) by cases (auto simp: sublist_Cons_right numeral_2_eq_2)
qed

lemma collapse_no_run: "\<not> sublist [newline, newline, newline] (collapse t)"
proof (induction t rule: collapse.induct)
  case 1
  show ?case by simp
next
  case (2 c cs)
  show ?case
  proof (cases "c = newline")
    case False
    with "2.IH"(2) show ?thesis by (simp add: sublist_Cons_right)
  next
    case True
    define run where "run = takeWhile (\<lambda>x. x = newline) (c # cs)"
    define rest where "rest = dropWhile (\<lambda>x. x = newline) cs"
    define pre where "pre = (if 3 \<le> length run then [newline, newline] else run)"
    have out: "collapse (c # cs) = pre @ collapse rest"
      using True by (simp add: Let_def run_def rest_def pre_def)
    have runrep: "run = replicate (length run) newline"
      unfolding run_def by (rule takeWhile_replicate_eq)
    have two: "[newline, newline] = replicate 2 newline" by (simp add: numeral_2_eq_2)
    have "\<exists>k. pre = replicate k newline \<and> k \<le> 2"
    proof (cases "3 \<le> length run")
      case True
      then have "pre = replicate 2 newline" by (simp add: pre_def two)
      then show ?thesis by blast
    next
      case False
      with runrep have "pre = replicate (length run) newline \<and> length run \<le> 2"
        by (simp add: pre_def)
      then show ?thesis by blast
    qed
    then obtain k where k: "pre = replicate k newline" "k \<le> 2" by blast
    have IH: "\<not> sublist [newline, newline, newline] (collapse rest)"
      using "2.IH"(1) [OF True refl refl] by (simp add: rest_def)
    show ?thesis
    proof (cases rest)
      case Nil
      with k show ?thesis unfolding out by (simp add: no_run_short)
    next
      case (Cons d ds)
      have "\<not> (\<lambda>x. x = newline) (hd rest)"
        unfolding rest_def by (rule hd_dropWhile) (use Cons in \<open>simp add: rest_def\<close>)
      with Cons have d: "d \<noteq> newline" by simp
      with Cons have "collapse rest = d # collapse ds" by simp
      with IH k d show ?thesis unfolding out by (simp add: no_run_prepend)
    qed
  qed
qed

lemma collapse_run:
  assumes "3 \<le> n" and "ys = [] \<or> hd ys \<noteq> newline"
  shows "xs = [] \<or> last xs \<noteq> newline \<Longrightarrow>
    collapse (xs @ replicate n newline @ ys) = collapse xs @ [newline, newline] @ collapse ys"
proof (induction xs rule: collapse.induct)
  case 1
  from assms(1) obtain m where m: "n = Suc m" "2 \<le> m" by (cases n) auto
  from assms(2) have ys: "takeWhile (\<lambda>x. x = newline) ys = []" "dropWhile (\<lambda>x. x = newline) ys = ys"
    by (cases ys; simp)+
  have tw: "takeWhile (\<lambda>x. x = newline) (replicate m newline @ ys) = replicate m newline"
    by (induction m) (simp_all add: ys)
  have dw: "dropWhile (\<lambda>x. x = newline) (replicate m newline @ ys) = ys"
    by (induction m) (simp_all add: ys)
  have "collapse (newline # replicate m newline @ ys) = [newline, newline] @ collapse ys"
    using m(2) by (simp add: Let_def tw dw)
  then have "collapse (replicate n newline @ ys) = [newline, newline] @ collapse ys"
    by (simp add: m(1))
  then show ?case by simp
next
  case (2 c cs)
  show ?case
  proof (cases "c = newline")
    case False
    from "2.prems" False have "cs = [] \<or> last cs \<noteq> newline" by (auto split: if_splits)
    from "2.IH"(2) [OF False this] False show ?thesis by simp
  next
    case True
    let ?P = "\<lambda>x. x = newline"
    let ?zs = "replicate n newline @ ys"
    from True "2.prems" have cs: "cs \<noteq> []" "last cs \<noteq> newline" by (auto split: if_splits)
    then have ex: "last cs \<in> set cs" "\<not> ?P (last cs)" by auto
    have tw: "takeWhile ?P (cs @ ?zs) = takeWhile ?P cs"
      using ex by (intro takeWhile_append1 [where P = "?P" and x = "last cs"]) simp_all
    have dw: "dropWhile ?P (cs @ ?zs) = dropWhile ?P cs @ ?zs"
      using ex by (intro dropWhile_append1 [where P = "?P" and x = "last cs"]) simp_all
    have rest: "dropWhile ?P cs \<noteq> []"
      using ex by (auto simp: dropWhile_eq_Nil_conv)
    then have "last (dropWhile ?P cs) \<noteq> newline"
      using cs dropWhile_last [of ?P cs] by simp
    with "2.IH"(1) [OF True refl refl]
    have "collapse (dropWhile ?P cs @ ?zs) =
        collapse (dropWhile ?P cs) @ [newline, newline] @ collapse ys" by simp
    with True tw dw show ?thesis by (simp add: Let_def)
  qed
qed

lemma newline_whitespace: "js_whitespace newline"
  by (simp add: js_whitespace_def newline_def)

text \<open>
  C8.  For every document and every way of resolving links, the text that the
  extraction returns neither starts nor ends with white space and contains no three
  consecutive line feeds; a run of three or more line feeds in the trimmed output of the
  walk comes out as exactly two.
\<close>

theorem extract_text_postprocessed:
  "(extract_text resolve body \<noteq> [] \<longrightarrow>
      \<not> js_whitespace (hd (extract_text resolve body)) \<and>
      \<not> js_whitespace (last (extract_text resolve body))) \<and>
   \<not> sublist [newline, newline, newline] (extract_text resolve body) \<and>
   (trim (processNode resolve body 0) = before @ replicate n newline @ after \<and> 3 \<le> n \<and>
    (before = [] \<or> last before \<noteq> newline) \<and> (after = [] \<or> hd after \<noteq> newline) \<longrightarrow>
      extract_text resolve body = collapse before @ [newline, newline] @ collapse after)"
proof -
  define t where "t = trim (processNode resolve body 0)"
  have r: "extract_text resolve body = collapse t" by (simp add: extract_text_def t_def)
  have ends: "\<not> js_whitespace (hd (collapse t)) \<and> \<not> js_whitespace (last (collapse t))"
    if "collapse t \<noteq> []"
  proof -
    from that have ne: "t \<noteq> []" by (simp add: collapse_Nil_iff)
    then have ws: "\<not> js_whitespace (hd t)" "\<not> js_whitespace (last t)"
      using trim_ends [of "processNode resolve body 0"] by (simp_all add: t_def)
    with newline_whitespace have "hd t \<noteq> newline" "last t \<noteq> newline" by auto
    with ne ws show ?thesis by (simp add: collapse_hd collapse_last)
  qed
  have runs: "collapse t = collapse before @ [newline, newline] @ collapse after"
    if "t = before @ replicate n newline @ after" "3 \<le> n"
      "before = [] \<or> last before \<noteq> newline" "after = [] \<or> hd after \<noteq> newline"
    using that collapse_run [of n after before] by simp
  from ends runs collapse_no_run [of t] show ?thesis
    unfolding r t_def [symmetric] by blast
qed

theorem extract_text_postprocessed_witness:
  "extract_text (\<lambda>h. None)
     (Element ''BODY'' []
        [TextNode ''a'', Element ''BR'' [] [], Element ''BR'' [] [], Element ''BR'' [] [],
         Element ''BR'' [] [], Element ''BR'' [] [], Element ''P'' [] [TextNode ''b'']])
     = ''a\<newline>\<newline>  b'' \<and>
   \<not> js_whitespace (CHR ''a'') \<and> \<not> js_whitespace (CHR ''b'') \<and>
   \<not> sublist [newline, newline, newline] ''a\<newline>\<newline>  b''"
proof -
  let ?body = "Element ''BODY'' []
        [TextNode ''a'', Element ''BR'' [] [], Element ''BR'' [] [], Element ''BR'' [] [],
         Element ''BR'' [] [], Element ''BR'' [] [], Element ''P'' [] [TextNode ''b'']]"
  note th = extract_text_postprocessed [of "\<lambda>h. None" ?body "''a''" 7 "''  b''"]
  have walk: "trim (processNode (\<lambda>h. None) ?body 0) = ''a'' @ replicate 7 newline @ ''  b''"
    by code_simp
  have ends: "3 \<le> (7 :: nat) \<and> (''a'' = [] \<or> last ''a'' \<noteq> newline) \<and>
      (''  b'' = [] \<or> hd ''  b'' \<noteq> newline)"
    by (simp add: newline_def)
  have c: "collapse ''a'' @ [newline, newline] @ collapse ''  b'' = ''a\<newline>\<newline>  b''"
    by code_simp
  from th walk ends
  have res: "extract_text (\<lambda>h. None) ?body =
      collapse ''a'' @ [newline, newline] @ collapse ''  b''"
    by blast
  then have val: "extract_text (\<lambda>h. None) ?body = ''a\<newline>\<newline>  b''"
    by (simp only: c)
  have ne: "extract_text (\<lambda>h. None) ?body \<noteq> []"
    unfolding val by simp
  from th have "\<not> sublist [newline, newline, newline] (extract_text (\<lambda>h. None) ?body)"
    by blast
  then have run: "\<not> sublist [newline, newline, newline] ''a\<newline>\<newline>  b''"
    unfolding val .
  from th ne have "\<not> js_whitespace (hd (extract_text (\<lambda>h. None) ?body)) \<and>
      \<not> js_whitespace (last (extract_text (\<lambda>h. None) ?body))"
    by blast
  then have "\<not> js_whitespace (hd ''a\<newline>\<newline>  b'') \<and>
      \<not> js_whitespace (last ''a\<newline>\<newline>  b'')"
    unfolding val .
  then have "\<not> js_whitespace (CHR ''a'') \<and> \<not> js_whitespace (CHR ''b'')"
    by simp
  with run val show ?thesis by blast
qed

subsection \<open>Verbs that need a page\<close>

lemmas tool_defs = call_def call_try_def handled_by_def parse_input_def actions_def own_actions_def
  toLowerCase_def upper_case_def lower_case_def trim_def js_whitespace_def try_catch_def caught_def

text \<open>
  C7.  With no page open, \<open>summarize\<close> does not return the advisory text.
  \<open>summarizePage\<close> has no test of \<open>this.page\<close>; it takes the advisory that
  \<open>getPageText\<close> returns for the text of the page and hands it to the language model,
  whose answer is returned (here the model echoes the start of its prompt).  The verb
  \<open>text\<close> in the same state returns the advisory.
\<close>

theorem summarize_without_page:
  "call sample_world \<lparr>page = None, lastActionTime = 0\<rparr> ''summarize'' =
     (Str ''Text: No page is open, please use open action first'',
      \<lparr>page = None, lastActionTime = 1000\<rparr>) \<and>
   call sample_world \<lparr>page = None, lastActionTime = 0\<rparr> ''text'' =
     (Str ''No page is open, please use open action first'',
      \<lparr>page = None, lastActionTime = 1000\<rparr>)"
  by (simp add: tool_defs sample_world_def summarizePage_def getPageText_def getPageText_try_def
      summarizeText_def summary_prompt_def)

lemma parse_input_verb [simp]:
  "parse_input ''text'' = (''text'', [])"
  "parse_input ''select'' = (''select'', [])"
  "parse_input ''previous'' = (''previous'', [])"
  "parse_input ''get-html'' = (''get-html'', [])"
  "parse_input ''get-structured-urls'' = (''get-structured-urls'', [])"
  "parse_input ''summarize'' = (''summarize'', [])"
  by (simp_all add: parse_input_def actions_def own_actions_def
      toLowerCase_def upper_case_def lower_case_def trim_def js_whitespace_def)

lemma actions_verb [simp]:
  "actions ''open'' = Some (Handler Open)"
  "actions ''summarize'' = Some (Handler Summarize)"
  "actions ''text'' = Some (Handler Text)"
  "actions ''select'' = Some (Handler Select)"
  "actions ''previous'' = Some (Handler Previous)"
  "actions ''get-html'' = Some (Handler GetHtml)"
  "actions ''get-structured-urls'' = Some (Handler GetStructuredUrls)"
  by (simp_all add: actions_def own_actions_def)

lemma no_page_advisory:
  assumes "page t = None"
  shows "call w t ''text'' = (Str ''No page is open, please use open action first'', t\<lparr>lastActionTime := now w\<rparr>)"
    and "call w t ''select'' = (Str ''No page is open'', t\<lparr>lastActionTime := now w\<rparr>)"
    and "call w t ''previous'' = (Str ''No page is open'', t\<lparr>lastActionTime := now w\<rparr>)"
    and "call w t ''get-html'' = (Str ''No page is open'', t\<lparr>lastActionTime := now w\<rparr>)"
    and "call w t ''get-structured-urls'' = (Str ''No page is open'', t\<lparr>lastActionTime := now w\<rparr>)"
  using assms
  by (simp_all add: call_def call_try_def handled_by_def try_catch_def getPageText_def
      getPageText_try_def selectDiv_def selectDiv_try_def goToPreviousPage_def
      goToPreviousPage_try_def getHtml_def getHtml_try_def getStructuredUrls_def
      getStructuredUrls_try_def)


subsection \<open>A navigation that fails\<close>

lemma parse_input_open: "parse_input (''open '' @ url) = (''open'', trim url)"
  by (simp add: parse_input_def toLowerCase_def upper_case_def lower_case_def trim_def
      js_whitespace_def)

lemma caught_text:
  "caught context error = Inr s \<Longrightarrow> \<exists>m. message_of error = Inr m \<and> s = context @ m"
  by (auto simp: caught_def split: sum.splits)

lemma caught_type_error:
  "caught context error = Inl e \<Longrightarrow> \<exists>m. e = JsError ''TypeError'' m"
  by (cases error) (auto simp: caught_def)

lemma previous_catch_text:
  "goToPreviousPage_catch error = Inr s \<Longrightarrow>
     s = ''Error navigating to previous page: '' @ to_text error"
  by (auto simp: goToPreviousPage_catch_def split: sum.splits)

lemma previous_catch_type_error:
  "goToPreviousPage_catch error = Inl e \<Longrightarrow> \<exists>m. e = JsError ''TypeError'' m"
  by (cases error) (auto simp: goToPreviousPage_catch_def)

lemma previous_on_page:
  assumes "page t = Some p"
  shows "fst (call w t ''previous'') \<noteq> Str ''No page is open''"
proof (cases "goBack w p")
  case (Inr u)
  with assms show ?thesis
    by (simp add: call_def call_try_def handled_by_def goToPreviousPage_def
        goToPreviousPage_try_def try_catch_def)
next
  case (Inl error)
  show ?thesis
  proof (cases "goToPreviousPage_catch error")
    case (Inr s)
    from previous_catch_text [OF this] Inr Inl assms show ?thesis
      by (simp add: call_def call_try_def handled_by_def goToPreviousPage_def
          goToPreviousPage_try_def try_catch_def)
  next
    case (Inl e)
    from previous_catch_type_error [OF this] obtain m where "e = JsError ''TypeError'' m" ..
    with Inl \<open>goBack w p = Inl error\<close> assms show ?thesis
      by (simp add: call_def call_try_def handled_by_def goToPreviousPage_def
          goToPreviousPage_try_def try_catch_def)
  qed
qed

lemma structured_urls_on_page:
  assumes "page t = Some p"
  shows "fst (call w t ''get-structured-urls'') \<noteq> Str ''No page is open''"
proof -
  have "getStructuredUrls_try w (t\<lparr>lastActionTime := now w\<rparr>) = (Inr s, t') \<Longrightarrow>
      s \<noteq> ''No page is open''" for s t'
    using assms
    by (auto simp: getStructuredUrls_try_def stringify_def split: sum.splits prod.splits)
  moreover have "caught ''Error getting structured URLs: '' error = Inr s \<Longrightarrow>
      s \<noteq> ''No page is open''" for error s
    by (auto dest: caught_text)
  moreover have "caught ''Error getting structured URLs: '' error = Inl e \<Longrightarrow>
      call_catch e \<noteq> Str ''No page is open''" for error e
    by (auto dest: caught_type_error)
  ultimately show ?thesis
    by (auto simp: call_def call_try_def handled_by_def getStructuredUrls_def try_catch_def
        split: prod.splits sum.splits)
qed

text \<open>
  C10.  With no page open and the browser service there, \<open>open\<close> first stores the new
  page handle and then navigates.  When the navigation fails the call returns the error
  text and the handle stays.  On the state that is left, \<open>previous\<close> and
  \<open>get-structured-urls\<close> never answer with the advisory, and \<open>get-html\<close>,
  \<open>text\<close> and \<open>select\<close> answer with what the page gives.
\<close>

theorem open_not_atomic:
  assumes "page t = None" and "puppeteer w" and "newPage w = Inr p"
    and "goto w p (trim url) = Inl error" and "message_of error = Inr message"
  shows "call w t (''open '' @ url) =
      (Str (''Error opening page: '' @ message), t\<lparr>lastActionTime := now w, page := Some p\<rparr>) \<and>
    fst (call w2 (t\<lparr>lastActionTime := now w, page := Some p\<rparr>) ''previous'')
      \<noteq> Str ''No page is open'' \<and>
    fst (call w2 (t\<lparr>lastActionTime := now w, page := Some p\<rparr>) ''get-structured-urls'')
      \<noteq> Str ''No page is open'' \<and>
    (content w2 p = Inr html \<longrightarrow>
       fst (call w2 (t\<lparr>lastActionTime := now w, page := Some p\<rparr>) ''get-html'') = Str html) \<and>
    (document_body w2 p = Inr root \<longrightarrow>
       fst (call w2 (t\<lparr>lastActionTime := now w, page := Some p\<rparr>) ''text'')
         = Str (extract_text (resolve_href w2 p) root)) \<and>
    (querySelector w2 p [] = Inr (Some tc) \<and> tc \<noteq> [] \<longrightarrow>
       fst (call w2 (t\<lparr>lastActionTime := now w, page := Some p\<rparr>) ''select'') = Str tc)"
proof -
  let ?t' = "t\<lparr>lastActionTime := now w, page := Some p\<rparr>"
  have opened: "call w t (''open '' @ url) = (Str (''Error opening page: '' @ message), ?t')"
    unfolding call_def call_try_def parse_input_open
    using assms
    by (simp add: handled_by_def openPage_def openPage_try_def initBrowser_def try_catch_def
        caught_def)
  have pg: "page ?t' = Some p" by simp
  have page_html: "content w2 p = Inr html \<longrightarrow> fst (call w2 ?t' ''get-html'') = Str html"
    by (simp add: call_def call_try_def handled_by_def getHtml_def getHtml_try_def try_catch_def)
  have page_text: "document_body w2 p = Inr root \<longrightarrow>
      fst (call w2 ?t' ''text'') = Str (extract_text (resolve_href w2 p) root)"
    by (simp add: call_def call_try_def handled_by_def getPageText_def getPageText_try_def
        try_catch_def)
  have sel: "querySelector w2 p [] = Inr (Some tc) \<and> tc \<noteq> [] \<longrightarrow>
      fst (call w2 ?t' ''select'') = Str tc"
    by (simp add: call_def call_try_def handled_by_def selectDiv_def selectDiv_try_def
        try_catch_def)
  from opened previous_on_page [OF pg] structured_urls_on_page [OF pg] page_html page_text sel
  show ?thesis by blast
qed

theorem open_not_atomic_witness:
  "call (sample_world\<lparr>puppeteer := True\<rparr>) \<lparr>page = None, lastActionTime = 0\<rparr>
       ''open https://example.com'' =
     (Str ''Error opening page: Navigation timeout: https://example.com'',
      \<lparr>page = Some 1, lastActionTime = 1000\<rparr>) \<and>
   fst (call sample_world \<lparr>page = Some 1, lastActionTime = 1000\<rparr> ''get-html'') =
     Str ''<html><head></head><body></body></html>'' \<and>
   fst (call sample_world \<lparr>page = Some 1, lastActionTime = 1000\<rparr> ''previous'')
     \<noteq> Str ''No page is open''"
proof -
  have tr: "trim ''https://example.com'' = ''https://example.com''"
    by (simp add: trim_def js_whitespace_def)
  have g: "goto (sample_world\<lparr>puppeteer := True\<rparr>) 1 (trim ''https://example.com'') =
      Inl (JsError ''TimeoutError'' ''Navigation timeout: https://example.com'')"
    unfolding tr by (simp add: sample_world_def)
  have c: "content sample_world 1 = Inr ''<html><head></head><body></body></html>''"
    by (simp add: sample_world_def)
  from open_not_atomic [of "\<lparr>page = None, lastActionTime = 0\<rparr>" "sample_world\<lparr>puppeteer := True\<rparr>" 1
      "''https://example.com''" _ _ sample_world, OF _ _ _ g] c
  show ?thesis
    by (simp add: sample_world_def)
qed

subsection \<open>Failures become text\<close>

lemma call_catch_Str: "\<exists>s. call_catch error = Str s"
  by (cases error) simp_all

lemma actions_constructor: "actions key = Some ObjectConstructor \<Longrightarrow> key = ''constructor''"
  by (simp add: actions_def split: option.splits if_splits)

lemma error_context_prefix: "prefix ''Error'' (error_context v @ m)"
  by (cases v) simp_all

lemma handler_failed:
  assumes "handler_try w t v params = (Inl error, t')"
  shows "handler w t v params =
    ((if v = Previous then goToPreviousPage_catch error else caught (error_context v) error), t')"
  using assms
  by (cases v)
    (simp_all add: openPage_def summarizePage_def getPageText_def selectDiv_def
      goToPreviousPage_def getHtml_def getStructuredUrls_def try_catch_def)

lemma handler_failed_call:
  assumes act: "actions (fst (parse_input input)) = Some (Handler v)"
    and failed: "handler_try w (t\<lparr>lastActionTime := now w\<rparr>) v (snd (parse_input input)) = (Inl error, t')"
  shows "\<exists>s. call w t input = (Str s, t') \<and> prefix ''Error'' s \<and>
    (\<forall>m. message_of error = Inr m \<longrightarrow>
       s = error_context v @ (if v = Previous then to_text error else m))"
proof -
  obtain action params where p: "parse_input input = (action, params)"
    by (cases "parse_input input")
  let ?c = "if v = Previous then goToPreviousPage_catch error else caught (error_context v) error"
  from handler_failed [OF failed] p
  have h: "handler w (t\<lparr>lastActionTime := now w\<rparr>) v params = (?c, t')" by simp
  show ?thesis
  proof (cases ?c)
    case (Inr s)
    then have s: "\<forall>m. message_of error = Inr m \<longrightarrow>
        s = error_context v @ (if v = Previous then to_text error else m)"
      by (auto simp: caught_def goToPreviousPage_catch_def split: if_splits sum.splits)
    moreover have "\<exists>m. s = error_context v @ m"
      using Inr
      by (auto simp: caught_def goToPreviousPage_catch_def split: if_splits sum.splits)
    then have "prefix ''Error'' s" using error_context_prefix by auto
    moreover have "call w t input = (Str s, t')"
      using act p h Inr by (simp add: call_def call_try_def handled_by_def)
    ultimately show ?thesis by blast
  next
    case (Inl e)
    then obtain m where e: "e = JsError ''TypeError'' m"
      using caught_type_error [of "error_context v" error e]
        previous_catch_type_error [of error e]
      by (auto split: if_splits)
    from Inl have "\<forall>m. message_of error \<noteq> Inr m"
      by (auto simp: caught_def goToPreviousPage_catch_def split: if_splits sum.splits)
    moreover have "call w t input = (Str (''Error: '' @ m), t')"
      using act p h Inl e by (simp add: call_def call_try_def handled_by_def)
    ultimately show ?thesis by auto
  qed
qed

lemma call_is_string:
  assumes "fst (parse_input input) \<noteq> ''constructor''"
  shows "\<exists>s. fst (call w t input) = Str s"
proof -
  obtain action params where p: "parse_input input = (action, params)"
    by (cases "parse_input input")
  with assms have nc: "actions action \<noteq> Some ObjectConstructor"
    by (auto dest: actions_constructor)
  show ?thesis
  proof (cases "actions action")
    case None
    with p show ?thesis by (simp add: call_def call_try_def)
  next
    case (Some pr)
    show ?thesis
    proof (cases pr)
      case (Handler v)
      obtain r t2 where h: "handler w (t\<lparr>lastActionTime := now w\<rparr>) v params = (r, t2)"
        by (cases "handler w (t\<lparr>lastActionTime := now w\<rparr>) v params")
      show ?thesis
        using p Some Handler h call_catch_Str
        by (cases r) (simp_all add: call_def call_try_def handled_by_def)
    next
      case ObjectConstructor
      with Some nc show ?thesis by simp
    next
      case ObjectPrototype
      with p Some show ?thesis by (simp add: call_def call_try_def)
    qed
  qed
qed

lemma summarize_text_failed:
  assumes "fst (parse_input input) = ''summarize''"
    and "getPageText w (t\<lparr>lastActionTime := now w\<rparr>) (snd (parse_input input)) = (Inr page_text, t')"
    and "invoke w (summary_prompt page_text (snd (parse_input input))) = Inl error"
    and "message_of error = Inr m"
  shows "call w t input = (Str (''Error summarizing text: '' @ m), t')"
proof -
  obtain action params where p: "parse_input input = (action, params)"
    by (cases "parse_input input")
  with assms show ?thesis
    by (simp add: call_def call_try_def handled_by_def summarizePage_def summarizeText_def
        caught_def)
qed

text \<open>
  C6, as the code has it.  The entry point never throws and, unless the action is the
  inherited key \<open>constructor\<close>, returns a string.  When the \<open>try\<close> block of the handler
  of a verb throws, the call returns a text that starts with \<open>Error\<close>: the context of that
  handler (\<open>Error opening page: \<close>, \<open>Error selecting div: \<close>, \<dots>) followed by the
  message of the exception (for \<open>previous\<close>, by the rendered exception).  When the language
  model fails during \<open>summarize\<close> the text is \<open>Error summarizing text: \<close> and the
  message.  Only an exception that leaves a handler reaches the \<open>catch\<close> block of
  \<open>_call\<close>, which turns an \<open>Error\<close> object into \<open>Error: \<close> and its message.
\<close>

theorem call_never_throws:
  "(fst (parse_input input) \<noteq> ''constructor'' \<longrightarrow> (\<exists>s. fst (call w t input) = Str s)) \<and>
   (actions (fst (parse_input input)) = Some (Handler v) \<and>
    handler_try w (t\<lparr>lastActionTime := now w\<rparr>) v (snd (parse_input input)) = (Inl error, t') \<longrightarrow>
      (\<exists>s. call w t input = (Str s, t') \<and> prefix ''Error'' s \<and>
           (\<forall>m. message_of error = Inr m \<longrightarrow>
              s = error_context v @ (if v = Previous then to_text error else m)))) \<and>
   (fst (parse_input input) = ''summarize'' \<and>
    getPageText w (t\<lparr>lastActionTime := now w\<rparr>) (snd (parse_input input)) = (Inr page_text, t') \<and>
    invoke w (summary_prompt page_text (snd (parse_input input))) = Inl error \<and>
    message_of error = Inr m \<longrightarrow>
      call w t input = (Str (''Error summarizing text: '' @ m), t')) \<and>
   (call_try w t input = (Inl error, t') \<longrightarrow> call w t input = (call_catch error, t')) \<and>
   call_catch (JsError name message) = Str (''Error: '' @ message)"
proof -
  have "call_try w t input = (Inl error, t') \<longrightarrow> call w t input = (call_catch error, t')"
    by (simp add: call_def)
  with call_is_string [of input w t] handler_failed_call [of input v w t error t']
    summarize_text_failed [of input w t page_text t' error m]
  show ?thesis by simp
qed

text \<open>
  The text of a handler failure does not start with \<open>Error:\<close>, and the action
  \<open>constructor\<close> makes the call return a \<open>String\<close> object.
\<close>

theorem error_prefix_counterexample:
  "call sample_world \<lparr>page = None, lastActionTime = 0\<rparr> ''open https://example.com'' =
     (Str ''Error opening page: Puppeteer service is not available'',
      \<lparr>page = None, lastActionTime = 1000\<rparr>) \<and>
   \<not> prefix ''Error:'' ''Error opening page: Puppeteer service is not available'' \<and>
   call sample_world \<lparr>page = None, lastActionTime = 0\<rparr> ''constructor abc'' =
     (StringObject ''abc'', \<lparr>page = None, lastActionTime = 1000\<rparr>)"
  by (simp add: tool_defs toLowerCase_def upper_case_def lower_case_def trim_def js_whitespace_def
      sample_world_def openPage_def openPage_try_def initBrowser_def try_catch_def caught_def)


theorem call_never_throws_witness:
  "call (sample_world\<lparr>puppeteer := True\<rparr>) \<lparr>page = None, lastActionTime = 0\<rparr>
       ''open https://example.com'' =
     (Str ''Error opening page: Navigation timeout: https://example.com'',
      \<lparr>page = Some 1, lastActionTime = 1000\<rparr>) \<and>
   prefix ''Error'' ''Error opening page: Navigation timeout: https://example.com'' \<and>
   call (sample_world\<lparr>invoke := \<lambda>input. Inl (JsError ''Error'' ''model is down'')\<rparr>)
       \<lparr>page = Some 1, lastActionTime = 0\<rparr> ''summarize'' =
     (Str ''Error summarizing text: model is down'', \<lparr>page = Some 1, lastActionTime = 1000\<rparr>)"
proof -
  let ?w = "sample_world\<lparr>puppeteer := True\<rparr>"
  let ?t = "\<lparr>page = None, lastActionTime = 0\<rparr>"
  let ?e = "JsError ''TimeoutError'' ''Navigation timeout: https://example.com''"
  let ?t' = "\<lparr>page = Some 1, lastActionTime = 1000\<rparr>"
  have p: "parse_input ''open https://example.com'' = (''open'', ''https://example.com'')"
    by (simp add: parse_input_def toLowerCase_def upper_case_def lower_case_def trim_def
        js_whitespace_def)
  have a: "actions (fst (parse_input ''open https://example.com'')) = Some (Handler Open)"
    unfolding p by simp
  have f: "handler_try ?w (?t\<lparr>lastActionTime := now ?w\<rparr>) Open
      (snd (parse_input ''open https://example.com'')) = (Inl ?e, ?t')"
    unfolding p by (simp add: openPage_try_def initBrowser_def sample_world_def)
  from call_never_throws [where input = "''open https://example.com''" and v = Open and w = ?w
      and t = ?t and error = ?e and t' = ?t'] a f
  obtain s where s: "call ?w ?t ''open https://example.com'' = (Str s, ?t')" "prefix ''Error'' s"
    "\<forall>m. message_of ?e = Inr m \<longrightarrow> s = error_context Open @ (if Open = Previous then to_text ?e else m)"
    by blast
  from s(3) have v: "s = ''Error opening page: Navigation timeout: https://example.com''"
    by simp
  let ?w2 = "sample_world\<lparr>invoke := \<lambda>input. Inl (JsError ''Error'' ''model is down'')\<rparr>"
  let ?t2 = "\<lparr>page = Some 1, lastActionTime = 0\<rparr>"
  have g: "getPageText ?w2 (?t2\<lparr>lastActionTime := now ?w2\<rparr>) (snd (parse_input ''summarize''))
      = (Inr [], ?t')"
  proof -
    have "extract_text (\<lambda>h. None) (Element ''BODY'' [] []) = []" by code_simp
    then show ?thesis
      by (simp add: getPageText_def getPageText_try_def try_catch_def sample_world_def)
  qed
  have i: "invoke ?w2 (summary_prompt [] (snd (parse_input ''summarize''))) =
      Inl (JsError ''Error'' ''model is down'')"
    by (simp add: sample_world_def)
  have m: "message_of (JsError ''Error'' ''model is down'') = Inr ''model is down''" by simp
  from call_never_throws [where input = "''summarize''" and w = ?w2 and t = ?t2
      and error = "JsError ''Error'' ''model is down''" and t' = ?t' and page_text = "[]"
      and m = "''model is down''"] g i m
  have "call ?w2 ?t2 ''summarize'' = (Str (''Error summarizing text: '' @ ''model is down''), ?t')"
    by simp
  with s(1,2) show ?thesis unfolding v by simp
qed

subsection \<open>Action and parameters\<close>

lemma indexOf_take_drop:
  assumes "indexOf xs c = Some i"
  shows "take i xs = takeWhile (\<lambda>x. x \<noteq> c) xs \<and> drop (i + 1) xs = tl (dropWhile (\<lambda>x. x \<noteq> c) xs)"
proof -
  from indexOf_Some_split [OF assms] obtain ys zs where
    xs: "xs = ys @ c # zs" and ys: "c \<notin> set ys" and i: "length ys = i" by blast
  from ys have "takeWhile (\<lambda>x. x \<noteq> c) (ys @ c # zs) = ys"
    and "dropWhile (\<lambda>x. x \<noteq> c) (ys @ c # zs) = c # zs"
    by (induction ys) auto
  with xs i show ?thesis by auto
qed

lemma parse_input_space:
  assumes "CHR '' '' \<in> set input"
  shows "parse_input input =
    (toLowerCase (trim (takeWhile (\<lambda>c. c \<noteq> CHR '' '') input)),
     trim (tl (dropWhile (\<lambda>c. c \<noteq> CHR '' '') input)))"
proof -
  from assms obtain i where i: "indexOf input (CHR '' '') = Some i"
    using indexOf_None [of input "CHR '' ''"] by (cases "indexOf input (CHR '' '')") auto
  from indexOf_take_drop [OF i] i show ?thesis by (simp add: parse_input_def)
qed

lemma parse_input_no_space:
  assumes "CHR '' '' \<notin> set input"
  shows "parse_input input =
    (if actions (toLowerCase (trim input)) = None then (''open'', trim input)
     else (toLowerCase (trim input), []))"
  using assms indexOf_None [of input "CHR '' ''"] by (simp add: parse_input_def Let_def)

lemma actions_own: "map_of own_actions key = Some v \<Longrightarrow> actions key = Some (Handler v)"
  by (simp add: actions_def)

lemma available_actions:
  "join (map fst own_actions) '', '' =
     ''open, summarize, text, select, previous, get-html, get-structured-urls''"
  by (simp add: own_actions_def)

text \<open>
  C5, as the code has it.  When the input has a space, the action is the text before the
  first space, trimmed and in lower case, and the parameters are the rest, trimmed; a
  known verb is then called with these parameters.  Without a space, the trimmed input
  in lower case is looked up: a known verb is called with empty parameters; when the
  lookup finds nothing, \<open>open\<close> is called with the trimmed input.  With a space and an
  action that the lookup does not find, the call returns the text that lists the seven
  verbs.  (The lookup also finds the inherited keys \<open>constructor\<close> and \<open>__proto__\<close>;
  nothing is said about them here.)
\<close>

theorem call_dispatch:
  "(CHR '' '' \<in> set input \<longrightarrow>
      parse_input input =
        (toLowerCase (trim (takeWhile (\<lambda>c. c \<noteq> CHR '' '') input)),
         trim (tl (dropWhile (\<lambda>c. c \<noteq> CHR '' '') input)))) \<and>
   (CHR '' '' \<in> set input \<and> map_of own_actions (fst (parse_input input)) = Some v \<longrightarrow>
      call_try w t input = handled_by w t v (snd (parse_input input))) \<and>
   (CHR '' '' \<notin> set input \<and> map_of own_actions (toLowerCase (trim input)) = Some v \<longrightarrow>
      call_try w t input = handled_by w t v []) \<and>
   (CHR '' '' \<notin> set input \<and> actions (toLowerCase (trim input)) = None \<longrightarrow>
      call_try w t input = handled_by w t Open (trim input)) \<and>
   (CHR '' '' \<in> set input \<and> actions (fst (parse_input input)) = None \<longrightarrow>
      call w t input =
        (Str (''Unknown action: '' @ fst (parse_input input) @
              ''. Available actions: open, summarize, text, select, previous, get-html, get-structured-urls''),
         t\<lparr>lastActionTime := now w\<rparr>))"
proof -
  have spaced: "call_try w t input = handled_by w t v (snd (parse_input input))"
    if "map_of own_actions (fst (parse_input input)) = Some v"
    using actions_own [OF that] by (cases "parse_input input") (simp add: call_try_def)
  have known: "call_try w t input = handled_by w t v []"
    if "CHR '' '' \<notin> set input" "map_of own_actions (toLowerCase (trim input)) = Some v"
    using parse_input_no_space [OF that(1)] actions_own [OF that(2)] by (simp add: call_try_def)
  have fallback: "call_try w t input = handled_by w t Open (trim input)"
    if "CHR '' '' \<notin> set input" "actions (toLowerCase (trim input)) = None"
    using parse_input_no_space [OF that(1)] that(2) by (simp add: call_try_def)
  have unknown: "call w t input =
      (Str (''Unknown action: '' @ fst (parse_input input) @
            ''. Available actions: open, summarize, text, select, previous, get-html, get-structured-urls''),
       t\<lparr>lastActionTime := now w\<rparr>)"
    if "actions (fst (parse_input input)) = None"
    using that available_actions by (cases "parse_input input") (simp add: call_def call_try_def)
  from parse_input_space [of input] spaced known fallback unknown show ?thesis by blast
qed

text \<open>
  The fallback to \<open>open\<close> does not pass the entire input: an input without a space may
  begin with a tab, which is trimmed away.  And the inherited keys are neither sent to
  \<open>open\<close> nor answered with the list of verbs.
\<close>

theorem open_fallback_trims_counterexample:
  "CHR '' '' \<notin> set (CHR 0x09 # ''example.com'') \<and>
   actions (toLowerCase (trim (CHR 0x09 # ''example.com''))) = None \<and>
   parse_input (CHR 0x09 # ''example.com'') = (''open'', ''example.com'') \<and>
   ''example.com'' \<noteq> CHR 0x09 # ''example.com'' \<and>
   call (sample_world\<lparr>puppeteer := True\<rparr>) \<lparr>page = None, lastActionTime = 0\<rparr>
       (CHR 0x09 # ''example.com'') =
     (Str ''Error opening page: Navigation timeout: example.com'',
      \<lparr>page = Some 1, lastActionTime = 1000\<rparr>) \<and>
   call sample_world \<lparr>page = None, lastActionTime = 0\<rparr> ''constructor'' =
     (StringObject [], \<lparr>page = None, lastActionTime = 1000\<rparr>) \<and>
   call sample_world \<lparr>page = None, lastActionTime = 0\<rparr> ''__proto__ x'' =
     (Str ''Error: this.actions[action] is not a function'',
      \<lparr>page = None, lastActionTime = 1000\<rparr>)"
  by (simp add: tool_defs toLowerCase_def upper_case_def lower_case_def trim_def js_whitespace_def
      sample_world_def openPage_def openPage_try_def initBrowser_def try_catch_def caught_def)


theorem call_dispatch_witness:
  "parse_input ''TEXT  some query '' = (''text'', ''some query'') \<and>
   call_try sample_world \<lparr>page = None, lastActionTime = 0\<rparr> ''TEXT  some query '' =
     handled_by sample_world \<lparr>page = None, lastActionTime = 0\<rparr> Text ''some query'' \<and>
   call_try sample_world \<lparr>page = None, lastActionTime = 0\<rparr> ''Get-HTML'' =
     handled_by sample_world \<lparr>page = None, lastActionTime = 0\<rparr> GetHtml [] \<and>
   call_try sample_world \<lparr>page = None, lastActionTime = 0\<rparr> ''https://example.com'' =
     handled_by sample_world \<lparr>page = None, lastActionTime = 0\<rparr> Open ''https://example.com'' \<and>
   call sample_world \<lparr>page = None, lastActionTime = 0\<rparr> ''bogus foo'' =
     (Str ''Unknown action: bogus. Available actions: open, summarize, text, select, previous, get-html, get-structured-urls'',
      \<lparr>page = None, lastActionTime = 1000\<rparr>)"
proof -
  let ?t = "\<lparr>page = None, lastActionTime = 0\<rparr>"
  note ev = toLowerCase_def upper_case_def lower_case_def trim_def js_whitespace_def
  have s1: "CHR '' '' \<in> set ''TEXT  some query ''" by simp
  have p1: "toLowerCase (trim (takeWhile (\<lambda>c. c \<noteq> CHR '' '') ''TEXT  some query '')) = ''text''"
    "trim (tl (dropWhile (\<lambda>c. c \<noteq> CHR '' '') ''TEXT  some query '')) = ''some query''"
    by (simp_all add: ev)
  from call_dispatch [where input = "''TEXT  some query ''" and v = Text and w = sample_world
      and t = ?t] s1
  have a: "parse_input ''TEXT  some query '' = (''text'', ''some query'')"
    unfolding p1 by blast
  from call_dispatch [where input = "''TEXT  some query ''" and v = Text and w = sample_world
      and t = ?t] s1
  have b: "call_try sample_world ?t ''TEXT  some query '' =
      handled_by sample_world ?t Text ''some query''"
    unfolding a by (simp add: own_actions_def)
  have s2: "CHR '' '' \<notin> set ''Get-HTML''"
    "map_of own_actions (toLowerCase (trim ''Get-HTML'')) = Some GetHtml"
    by (simp_all add: ev own_actions_def)
  from call_dispatch [where input = "''Get-HTML''" and v = GetHtml and w = sample_world and t = ?t]
    s2
  have c: "call_try sample_world ?t ''Get-HTML'' = handled_by sample_world ?t GetHtml []"
    by blast
  have s3: "CHR '' '' \<notin> set ''https://example.com''"
    "actions (toLowerCase (trim ''https://example.com'')) = None"
    by (simp_all add: ev actions_def own_actions_def)
  have t3: "trim ''https://example.com'' = ''https://example.com''"
    by (simp add: ev)
  from call_dispatch [where input = "''https://example.com''" and w = sample_world and t = ?t] s3
  have "call_try sample_world ?t ''https://example.com'' =
      handled_by sample_world ?t Open (trim ''https://example.com'')"
    by blast
  then have d: "call_try sample_world ?t ''https://example.com'' =
      handled_by sample_world ?t Open ''https://example.com''"
    unfolding t3 .
  have s4: "CHR '' '' \<in> set ''bogus foo''" by simp
  have p4: "toLowerCase (trim (takeWhile (\<lambda>c. c \<noteq> CHR '' '') ''bogus foo'')) = ''bogus''"
    "trim (tl (dropWhile (\<lambda>c. c \<noteq> CHR '' '') ''bogus foo'')) = ''foo''"
    by (simp_all add: ev)
  from call_dispatch [where input = "''bogus foo''" and w = sample_world and t = ?t] s4
  have q4: "parse_input ''bogus foo'' = (''bogus'', ''foo'')"
    unfolding p4 by blast
  from call_dispatch [where input = "''bogus foo''" and w = sample_world and t = ?t] s4
  have e: "call sample_world ?t ''bogus foo'' =
      (Str ''Unknown action: bogus. Available actions: open, summarize, text, select, previous, get-html, get-structured-urls'',
       \<lparr>page = None, lastActionTime = 1000\<rparr>)"
    unfolding q4 by (simp add: actions_def own_actions_def sample_world_def)
  from a b c d e show ?thesis by blast
qed

subsection \<open>The classification of links\<close>

text \<open>
  When every \<open>href\<close> that is not empty parses, the loop fills the four buckets as the
  specification says, each link with a non-empty \<open>href\<close> going to one bucket.
\<close>

lemma classify_buckets:
  assumes "\<forall>a \<in> set anchors. href a \<noteq> [] \<longrightarrow> parse (href a) = Some (u (href a))"
  shows "classify parse currentHost anchors acc =
    Inr \<lparr>search = search acc @ entries currentHost u SearchBucket anchors,
         navigation = navigation acc @ entries currentHost u NavigationBucket anchors,
         external = external acc @ entries currentHost u ExternalBucket anchors,
         other = other acc @ entries currentHost u OtherBucket anchors\<rparr>"
  using assms
proof (induction anchors arbitrary: acc)
  case Nil
  show ?case by (simp add: entries_def)
next
  case (Cons a anchors)
  then have IH: "\<And>acc. classify parse currentHost anchors acc =
    Inr \<lparr>search = search acc @ entries currentHost u SearchBucket anchors,
         navigation = navigation acc @ entries currentHost u NavigationBucket anchors,
         external = external acc @ entries currentHost u ExternalBucket anchors,
         other = other acc @ entries currentHost u OtherBucket anchors\<rparr>"
    by simp
  show ?case
  proof (cases "href a = []")
    case True
    then show ?thesis by (simp add: IH entries_def)
  next
    case False
    with Cons.prems have p: "parse (href a) = Some (u (href a))" by simp
    consider "bucket_of currentHost (u (href a)) a = SearchBucket"
      | "bucket_of currentHost (u (href a)) a = NavigationBucket"
      | "bucket_of currentHost (u (href a)) a = ExternalBucket"
      | "bucket_of currentHost (u (href a)) a = OtherBucket"
      by (cases "bucket_of currentHost (u (href a)) a") auto
    then show ?thesis
    proof cases
      case 1
      with False p show ?thesis
        by (simp add: IH entries_def Let_def bucket_of_def split: if_splits)
    next
      case 2
      with False p show ?thesis
        by (simp add: IH entries_def Let_def bucket_of_def split: if_splits)
    next
      case 3
      with False p show ?thesis
        by (simp add: IH entries_def Let_def bucket_of_def split: if_splits)
    next
      case 4
      with False p show ?thesis
        by (simp add: IH entries_def Let_def bucket_of_def split: if_splits)
    qed
  qed
qed

lemma buckets_partition:
  "length (entries currentHost u SearchBucket anchors) +
   length (entries currentHost u NavigationBucket anchors) +
   length (entries currentHost u ExternalBucket anchors) +
   length (entries currentHost u OtherBucket anchors) =
   length (filter (\<lambda>a. href a \<noteq> []) anchors)"
proof (induction anchors)
  case Nil
  show ?case by (simp add: entries_def)
next
  case (Cons a anchors)
  then show ?case
    by (cases "bucket_of currentHost (u (href a)) a") (auto simp: entries_def)
qed

text \<open>
  C9.  One link whose \<open>href\<close> does not parse stops the classification of all links:
  \<open>new URL(href)\<close> throws inside the loop, and the verb returns the error text.  The
  sample page has three links that parse and a fourth with \<open>href="http://"\<close>; without
  the fourth link the three are classified as the specification says.
\<close>

theorem structured_urls_invalid_href:
  "call sample_world \<lparr>page = Some 1, lastActionTime = 0\<rparr> ''get-structured-urls'' =
     (Str ''Error getting structured URLs: Failed to construct 'URL': Invalid URL'',
      \<lparr>page = Some 1, lastActionTime = 1000\<rparr>) \<and>
   call (sample_world\<lparr>links := \<lambda>p. Inr (''example.com'', butlast sample_links)\<rparr>)
       \<lparr>page = Some 1, lastActionTime = 0\<rparr> ''get-structured-urls'' =
     (Str (stringify
        \<lparr>search = [''Find: https://example.com/find?q=term''],
         navigation = [''About: https://example.com/about''],
         external = [''Other: https://other.org/''],
         other = []\<rparr>),
      \<lparr>page = Some 1, lastActionTime = 1000\<rparr>)"
  by (simp add: call_def call_try_def handled_by_def getStructuredUrls_def
      getStructuredUrls_try_def try_catch_def caught_def sample_world_def sample_links_def
      sample_URL_def trim_def js_whitespace_def)

end
